theory Spec2Isabelle
  imports Main "HOL-Library.Sublist" "HOL-Library.AList"
begin

section \<open>JavaScript values, as the workflow editor's library code sees them\<close>

text \<open>
  The library (\<^verbatim>\<open>src/lib/yaml-utils.js\<close>, \<^verbatim>\<open>src/lib/sql-utils.js\<close>, the upload helpers
  and the action table) works on the values a YAML document deserializes to. A value is
  a tree. A number is kept as the text \<^verbatim>\<open>ToString\<close> gives for it (\<^verbatim>\<open>0\<close> for both
  zeros, \<^verbatim>\<open>NaN\<close>): the code never computes with a number of the document, it only tests
  its truthiness, compares it and puts it into text. An object is the list of its own
  enumerable properties in the order \<^verbatim>\<open>Object.entries\<close> lists them. Strings are lists
  of 8-bit characters.
\<close>

datatype jsval =
    JUndefined
  | JNull
  | JBool bool
  | JNum string
  | JStr string
  | JArr "jsval list"
  | JObj "(string \<times> jsval) list"

text \<open>A thrown value: an \<^verbatim>\<open>Error\<close> object with its message, or anything else.\<close>

datatype thrown = JsError string | JsOther

text \<open>\<^verbatim>\<open>!!v\<close>: the falsy values are undefined, null, false, 0, NaN and the empty string.\<close>

fun js_truthy :: "jsval \<Rightarrow> bool" where
  "js_truthy JUndefined = False"
| "js_truthy JNull = False"
| "js_truthy (JBool b) = b"
| "js_truthy (JNum t) = (t \<noteq> ''0'' \<and> t \<noteq> ''NaN'')"
| "js_truthy (JStr s) = (s \<noteq> [])"
| "js_truthy (JArr xs) = True"
| "js_truthy (JObj ps) = True"

fun is_string :: "jsval \<Rightarrow> bool" where
  "is_string (JStr s) = True"
| "is_string v = False"

fun is_array :: "jsval \<Rightarrow> bool" where
  "is_array (JArr xs) = True"
| "is_array v = False"

text \<open>\<^verbatim>\<open>typeof v === "object"\<close>: null, arrays and objects.\<close>

fun typeof_object :: "jsval \<Rightarrow> bool" where
  "typeof_object JNull = True"
| "typeof_object (JArr xs) = True"
| "typeof_object (JObj ps) = True"
| "typeof_object v = False"

text \<open>
  \<^verbatim>\<open>a === b\<close>. Primitives compare by value, and NaN differs from itself. Arrays and
  objects compare by identity; values are trees here, so two arrays or objects met at
  two places of a document are two objects.
\<close>

fun strict_eq :: "jsval \<Rightarrow> jsval \<Rightarrow> bool" where
  "strict_eq JUndefined JUndefined = True"
| "strict_eq JNull JNull = True"
| "strict_eq (JBool a) (JBool b) = (a = b)"
| "strict_eq (JNum a) (JNum b) = (a = b \<and> a \<noteq> ''NaN'')"
| "strict_eq (JStr a) (JStr b) = (a = b)"
| "strict_eq a b = False"

text \<open>The decimal text of an index, as a template literal prints it.\<close>

fun nat_to_string :: "nat \<Rightarrow> string" where
  "nat_to_string n =
     (if n < 10 then [char_of (48 + n)]
      else nat_to_string (n div 10) @ [char_of (48 + n mod 10)])"

declare nat_to_string.simps [simp del]

fun join_texts :: "string option list \<Rightarrow> string option" where
  "join_texts [] = Some []"
| "join_texts [t] = t"
| "join_texts (t # ts) =
     (case t of None \<Rightarrow> None
      | Some a \<Rightarrow> (case join_texts ts of None \<Rightarrow> None | Some b \<Rightarrow> Some (a @ '','' @ b)))"

text \<open>
  \<^verbatim>\<open>ToString(v)\<close>, which a template literal, a property key and the argument of
  \<^verbatim>\<open>includes\<close> go through. \<open>None\<close> is the TypeError of \<^verbatim>\<open>ToPrimitive\<close>: an object
  whose own \<^verbatim>\<open>toString\<close> property hides the inherited method has no callable
  \<^verbatim>\<open>toString\<close> (a document holds no functions), and the inherited \<^verbatim>\<open>valueOf\<close> returns
  the object itself. An array joins its elements with commas, null and undefined
  elements as the empty text.
\<close>

fun to_string :: "jsval \<Rightarrow> string option" where
  "to_string JUndefined = Some ''undefined''"
| "to_string JNull = Some ''null''"
| "to_string (JBool b) = Some (if b then ''true'' else ''false'')"
| "to_string (JNum t) = Some t"
| "to_string (JStr s) = Some s"
| "to_string (JArr xs) =
     join_texts (map (\<lambda>x. if x = JUndefined \<or> x = JNull then Some [] else to_string x) xs)"
| "to_string (JObj ps) =
     (if ''toString'' \<in> set (map fst ps) then None else Some ''[object Object]'')"

text \<open>
  \<^verbatim>\<open>Object.entries(v)\<close>: a TypeError on null and undefined, the own properties of an
  object, the indexed elements of an array and the indexed characters of a string,
  nothing for a boolean or a number.
\<close>

definition index_entries :: "jsval list \<Rightarrow> (string \<times> jsval) list" where
  "index_entries xs = zip (map nat_to_string [0..<length xs]) xs"

fun own_entries :: "jsval \<Rightarrow> (string \<times> jsval) list" where
  "own_entries (JObj ps) = ps"
| "own_entries (JArr xs) = index_entries xs"
| "own_entries (JStr s) = index_entries (map (\<lambda>c. JStr [c]) s)"
| "own_entries v = []"

definition object_entries :: "jsval \<Rightarrow> thrown + (string \<times> jsval) list" where
  "object_entries v =
     (if v = JUndefined \<or> v = JNull
      then Inl (JsError ''Cannot convert undefined or null to object'')
      else Inr (own_entries v))"

text \<open>
  \<^verbatim>\<open>v.k\<close> and \<^verbatim>\<open>v[k]\<close> for the property names the library reads (\<^verbatim>\<open>actions\<close>,
  \<^verbatim>\<open>action\<close>, \<^verbatim>\<open>dataframe\<close>, the mandatory property names, the keys of
  \<^verbatim>\<open>Object.entries\<close>): none of them is an inherited property of a boolean, number,
  string, array or plain object, so the read gives the own property or undefined.
  Reading a property of null or undefined throws.
\<close>

fun js_get :: "jsval \<Rightarrow> string \<Rightarrow> jsval" where
  "js_get (JObj ps) k = (case map_of ps k of Some v \<Rightarrow> v | None \<Rightarrow> JUndefined)"
| "js_get v k = JUndefined"

definition js_prop :: "jsval \<Rightarrow> string \<Rightarrow> thrown + jsval" where
  "js_prop v k =
     (if v = JNull then Inl (JsError (''Cannot read properties of null (reading '' @ [CHR 0x27] @ k @ [CHR 0x27] @ '')''))
      else if v = JUndefined
      then Inl (JsError (''Cannot read properties of undefined (reading '' @ [CHR 0x27] @ k @ [CHR 0x27] @ '')''))
      else Inr (js_get v k))"

subsection \<open>String operations\<close>

text \<open>\<^verbatim>\<open>s.includes(p)\<close>: \<open>p\<close> occurs in \<open>s\<close> as a contiguous run.\<close>

fun js_includes :: "string \<Rightarrow> string \<Rightarrow> bool" where
  "js_includes [] p = (p = [])"
| "js_includes (c # cs) p = (prefix p (c # cs) \<or> js_includes cs p)"

text \<open>White space and line terminators, among 8-bit characters.\<close>

definition is_js_space :: "char \<Rightarrow> bool" where
  "is_js_space c = ((of_char c :: nat) \<in> {9, 10, 11, 12, 13, 32, 160})"

definition js_trim :: "string \<Rightarrow> string" where
  "js_trim s = rev (dropWhile is_js_space (rev (dropWhile is_js_space s)))"

text \<open>
  Case mapping of 8-bit characters. \<^verbatim>\<open>toUpperCase\<close> turns the sharp s into \<^verbatim>\<open>SS\<close>;
  the micro sign and y with diaeresis have upper-case forms outside of 8 bits and are
  kept (neither form is an ASCII character).
\<close>

definition upper_char :: "char \<Rightarrow> string" where
  "upper_char c =
     (let n = (of_char c :: nat) in
      if 97 \<le> n \<and> n \<le> 122 then [char_of (n - 32)]
      else if n = 223 then ''SS''
      else if 224 \<le> n \<and> n \<le> 254 \<and> n \<noteq> 247 then [char_of (n - 32)]
      else [c])"

definition js_toUpperCase :: "string \<Rightarrow> string" where
  "js_toUpperCase s = concat (map upper_char s)"

definition lower_char :: "char \<Rightarrow> char" where
  "lower_char c =
     (let n = (of_char c :: nat) in
      if 65 \<le> n \<and> n \<le> 90 then char_of (n + 32)
      else if 192 \<le> n \<and> n \<le> 222 \<and> n \<noteq> 215 then char_of (n + 32)
      else c)"

definition js_toLowerCase :: "string \<Rightarrow> string" where
  "js_toLowerCase s = map lower_char s"

text \<open>\<^verbatim>\<open>s.split(sep)\<close> for a one-character separator.\<close>

fun js_split :: "char \<Rightarrow> string \<Rightarrow> string list" where
  "js_split sep [] = [[]]"
| "js_split sep (c # cs) =
     (if c = sep then [] # js_split sep cs
      else (case js_split sep cs of [] \<Rightarrow> [[c]] | p # ps \<Rightarrow> (c # p) # ps))"

text \<open>\<^verbatim>\<open>s.indexOf(p)\<close>: the first position where \<open>p\<close> starts, or -1.\<close>

fun index_from :: "nat \<Rightarrow> string \<Rightarrow> string \<Rightarrow> int" where
  "index_from i [] p = (if p = [] then int i else - 1)"
| "index_from i (c # cs) p = (if prefix p (c # cs) then int i else index_from (Suc i) cs p)"

definition js_indexOf :: "string \<Rightarrow> string \<Rightarrow> int" where
  "js_indexOf s p = index_from 0 s p"

text \<open>\<^verbatim>\<open>s.substring(start)\<close>: a negative start counts as 0.\<close>

definition js_substring :: "string \<Rightarrow> int \<Rightarrow> string" where
  "js_substring s start = drop (nat start) s"

section \<open>Regular expressions\<close>

text \<open>
  The patterns of \<^verbatim>\<open>sql-utils.js\<close> use literals, the classes
  \<^verbatim>\<open>.\<close>, \<^verbatim>\<open>\s\<close> and \<^verbatim>\<open>\w\<close>, sequence, alternatives, the greedy \<^verbatim>\<open>*\<close> and \<^verbatim>\<open>+\<close>, the
  word boundary \<^verbatim>\<open>\b\<close>, \<^verbatim>\<open>$\<close> under the \<^verbatim>\<open>m\<close> flag and one look-behind
  \<^verbatim>\<open>(?<!\\)\<close>. A pattern is matched by backtracking: \<open>rx_ends\<close> lists the positions
  where a match starting at position \<open>i\<close> can end, in the order in which backtracking
  tries them, so the head of the list is where the match that JavaScript reports ends.
\<close>

datatype rx =
    REps
  | RLit char
  | RAny
  | RSpace
  | RWord
  | RSeq rx rx
  | RAlt rx rx
  | RStar rx
  | RWordB
  | REol
  | RNotAfter char

definition is_line_end :: "char \<Rightarrow> bool" where
  "is_line_end c = ((of_char c :: nat) \<in> {10, 13})"

definition is_word_char :: "char \<Rightarrow> bool" where
  "is_word_char c =
     (let n = (of_char c :: nat) in
      (48 \<le> n \<and> n \<le> 57) \<or> (65 \<le> n \<and> n \<le> 90) \<or> n = 95 \<or> (97 \<le> n \<and> n \<le> 122))"

text \<open>
  The \<^verbatim>\<open>i\<close> flag compares the canonical forms of two characters: the upper-case form
  where it is one character, the character itself otherwise.
\<close>

definition canonical :: "char \<Rightarrow> char" where
  "canonical c = (case upper_char c of [u] \<Rightarrow> u | _ \<Rightarrow> c)"

definition lit_match :: "bool \<Rightarrow> char \<Rightarrow> char \<Rightarrow> bool" where
  "lit_match icase p c = (if icase then canonical c = canonical p else c = p)"

definition word_at :: "string \<Rightarrow> nat \<Rightarrow> bool" where
  "word_at s i = (i < length s \<and> is_word_char (s ! i))"

text \<open>
  The third argument bounds the iterations of a star. An iteration that consumes
  nothing is rejected, so a star started at position \<open>i\<close> iterates at most
  \<open>length s - i\<close> times, and the bound \<open>length s\<close> is never the reason a match
  is missed.
\<close>

fun rx_ends :: "bool \<Rightarrow> string \<Rightarrow> nat \<Rightarrow> rx \<Rightarrow> nat \<Rightarrow> nat list" where
  "rx_ends ic s f REps i = [i]"
| "rx_ends ic s f (RLit p) i = (if i < length s \<and> lit_match ic p (s ! i) then [Suc i] else [])"
| "rx_ends ic s f RAny i = (if i < length s \<and> \<not> is_line_end (s ! i) then [Suc i] else [])"
| "rx_ends ic s f RSpace i = (if i < length s \<and> is_js_space (s ! i) then [Suc i] else [])"
| "rx_ends ic s f RWord i = (if i < length s \<and> is_word_char (s ! i) then [Suc i] else [])"
| "rx_ends ic s f (RSeq a b) i = concat (map (\<lambda>j. rx_ends ic s f b j) (rx_ends ic s f a i))"
| "rx_ends ic s f (RAlt a b) i = rx_ends ic s f a i @ rx_ends ic s f b i"
| "rx_ends ic s 0 (RStar a) i = [i]"
| "rx_ends ic s (Suc f) (RStar a) i =
     concat (map (\<lambda>j. if i < j then rx_ends ic s f (RStar a) j else [])
                 (rx_ends ic s (Suc f) a i)) @ [i]"
| "rx_ends ic s f RWordB i =
     (if (0 < i \<and> word_at s (i - 1)) \<noteq> word_at s i then [i] else [])"
| "rx_ends ic s f REol i = (if i = length s \<or> (i < length s \<and> is_line_end (s ! i)) then [i] else [])"
| "rx_ends ic s f (RNotAfter c) i = (if 0 < i \<and> i \<le> length s \<and> s ! (i - 1) = c then [] else [i])"

definition rx_plus :: "rx \<Rightarrow> rx" where
  "rx_plus a = RSeq a (RStar a)"

definition rx_seq :: "rx list \<Rightarrow> rx" where
  "rx_seq rs = foldr RSeq rs REps"

definition rx_text :: "string \<Rightarrow> rx" where
  "rx_text t = rx_seq (map RLit t)"

definition rx_alts :: "rx list \<Rightarrow> rx" where
  "rx_alts rs = (case rs of [] \<Rightarrow> REps | r # rest \<Rightarrow> foldl RAlt r rest)"

text \<open>Where the match that starts at position \<open>i\<close> ends, if there is one.\<close>

definition rx_match_at :: "bool \<Rightarrow> rx \<Rightarrow> string \<Rightarrow> nat \<Rightarrow> nat option" where
  "rx_match_at ic r s i = (case rx_ends ic s (length s) r i of [] \<Rightarrow> None | e # es \<Rightarrow> Some e)"

text \<open>The first match at or after position \<open>i\<close>: its start and its end.\<close>

definition rx_exec :: "bool \<Rightarrow> rx \<Rightarrow> string \<Rightarrow> nat \<Rightarrow> (nat \<times> nat) option" where
  "rx_exec ic r s i =
     (case List.find (\<lambda>p. rx_match_at ic r s p \<noteq> None) [i..<Suc (length s)] of
        None \<Rightarrow> None
      | Some p \<Rightarrow> (case rx_match_at ic r s p of None \<Rightarrow> None | Some e \<Rightarrow> Some (p, e)))"

text \<open>\<^verbatim>\<open>pattern.test(s)\<close>, for a pattern without the \<^verbatim>\<open>g\<close> flag.\<close>

definition rx_test :: "bool \<Rightarrow> rx \<Rightarrow> string \<Rightarrow> bool" where
  "rx_test ic r s = (rx_exec ic r s 0 \<noteq> None)"

text \<open>
  \<^verbatim>\<open>s.match(pattern)\<close> under the \<^verbatim>\<open>g\<close> flag: the matched texts from left to right,
  each search starting where the last match ended (one further after an empty match).
  The first argument bounds the number of matches; \<open>Suc (length s)\<close> is enough.
\<close>

fun rx_matches_from :: "nat \<Rightarrow> bool \<Rightarrow> rx \<Rightarrow> string \<Rightarrow> nat \<Rightarrow> string list" where
  "rx_matches_from 0 ic r s i = []"
| "rx_matches_from (Suc k) ic r s i =
     (case rx_exec ic r s i of
        None \<Rightarrow> []
      | Some (p, e) \<Rightarrow>
          take (e - p) (drop p s) # rx_matches_from k ic r s (if e = p then Suc e else e))"

definition js_match_all :: "bool \<Rightarrow> rx \<Rightarrow> string \<Rightarrow> string list" where
  "js_match_all ic r s = rx_matches_from (Suc (length s)) ic r s 0"

section \<open>The action table and the upload file names (\<^verbatim>\<open>src/lib/types.js\<close>)\<close>

record action_definition =
  name :: string
  color :: string
  icon :: string
  mandatoryProps :: "string list"
  optionalProps :: "string list"

definition actionDefinitions :: "action_definition list" where
  "actionDefinitions =
     [\<lparr>name = ''Extract'', color = ''#4CAF50'', icon = ''database'',
       mandatoryProps = [''action'', ''name'', ''dataframe'', ''location''],
       optionalProps = [''tableName'', ''databaseName'']\<rparr>,
      \<lparr>name = ''Execute'', color = ''#2196F3'', icon = ''play'',
       mandatoryProps = [''action'', ''name'', ''dataframe'', ''script''],
       optionalProps = [''output'']\<rparr>,
      \<lparr>name = ''Transform'', color = ''#FF9800'', icon = ''refresh-cw'',
       mandatoryProps = [''action'', ''name'', ''dataframe'', ''transformations''],
       optionalProps = [''options'']\<rparr>,
      \<lparr>name = ''Load'', color = ''#9C27B0'', icon = ''upload'',
       mandatoryProps = [''action'', ''name'', ''dataframe'', ''destination''],
       optionalProps = [''format'', ''options'']\<rparr>,
      \<lparr>name = ''Merge'', color = ''#F44336'', icon = ''git-merge'',
       mandatoryProps = [''action'', ''name'', ''dataframe'', ''sources''],
       optionalProps = [''strategy'', ''options'']\<rparr>,
      \<lparr>name = ''Purge'', color = ''#795548'', icon = ''trash-2'',
       mandatoryProps = [''action'', ''name'', ''dataframe'', ''target''],
       optionalProps = [''options'']\<rparr>,
      \<lparr>name = ''S3Replicate'', color = ''#607D8B'', icon = ''copy'',
       mandatoryProps = [''action'', ''name'', ''dataframe'', ''source'', ''destination''],
       optionalProps = [''options'']\<rparr>,
      \<lparr>name = ''Include'', color = ''#009688'', icon = ''file-plus'',
       mandatoryProps = [''action'', ''name'', ''dataframe'', ''path''],
       optionalProps = [''options'']\<rparr>]"

text \<open>\<^verbatim>\<open>actionDefinitions.find((def) => def.name === actionType)\<close>\<close>

definition getActionDefinition :: "jsval \<Rightarrow> action_definition option" where
  "getActionDefinition actionType =
     List.find (\<lambda>d. strict_eq (JStr (name d)) actionType) actionDefinitions"

text \<open>
  The result of \<^verbatim>\<open>validateS3Filename\<close>: \<^verbatim>\<open>{ isValid: true }\<close>, or
  \<^verbatim>\<open>{ isValid: false, error }\<close> with the reason.
\<close>

datatype filename_check = Valid | Invalid string

fun s3_isValid :: "filename_check \<Rightarrow> bool" where
  "s3_isValid Valid = True"
| "s3_isValid (Invalid e) = False"

text \<open>The character class \<^verbatim>\<open>[<>:"|?*\x00-\x1f]\<close>.\<close>

definition invalidChars :: "char \<Rightarrow> bool" where
  "invalidChars c =
     (c \<in> {CHR ''<'', CHR ''>'', CHR '':'', CHR 0x22, CHR ''|'', CHR ''?'', CHR ''*''}
      \<or> (of_char c :: nat) \<le> 31)"

definition reservedNames :: "string list" where
  "reservedNames =
     [''CON'', ''PRN'', ''AUX'', ''NUL'',
      ''COM1'', ''COM2'', ''COM3'', ''COM4'', ''COM5'', ''COM6'', ''COM7'', ''COM8'', ''COM9'',
      ''LPT1'', ''LPT2'', ''LPT3'', ''LPT4'', ''LPT5'', ''LPT6'', ''LPT7'', ''LPT8'', ''LPT9'']"

text \<open>\<^verbatim>\<open>trimmed.split(".")[0]\<close>: the text before the first dot.\<close>

definition nameWithoutExt :: "string \<Rightarrow> string" where
  "nameWithoutExt trimmed = js_toUpperCase (hd (js_split CHR ''.'' trimmed))"

definition validateS3Filename :: "jsval \<Rightarrow> filename_check" where
  "validateS3Filename filename =
     (case filename of
        JStr f \<Rightarrow>
          if f = [] then Invalid ''Filename is required''
          else let trimmed = js_trim f in
            if length trimmed = 0 then Invalid ''Filename cannot be empty''
            else if length trimmed > 255 then Invalid ''Filename too long (max 255 characters)''
            else if list_ex invalidChars trimmed then Invalid ''Filename contains invalid characters''
            else if nameWithoutExt trimmed \<in> set reservedNames
              then Invalid ''Filename uses a reserved name''
            else Valid
      | _ \<Rightarrow> Invalid ''Filename is required'')"

definition ensureYamlExtension :: "string \<Rightarrow> string" where
  "ensureYamlExtension filename =
     (let trimmed = js_trim filename in
      if suffix ''.yaml'' trimmed \<or> suffix ''.yml'' trimmed then trimmed
      else trimmed @ ''.yaml'')"

section \<open>Validation of a document (\<^verbatim>\<open>src/lib/yaml-utils.js\<close>)\<close>

text \<open>
  \<^verbatim>\<open>xs.forEach((x, index) => ...)\<close> with a callback that updates a state and may throw:
  the loop stops at the first exception, and what the callback has written before stays
  written.
\<close>

fun forEach :: "('s \<Rightarrow> 'a \<Rightarrow> nat \<Rightarrow> 's \<times> thrown option) \<Rightarrow> 'a list \<Rightarrow> nat \<Rightarrow> 's
    \<Rightarrow> 's \<times> thrown option" where
  "forEach f [] i s = (s, None)"
| "forEach f (x # xs) i s =
     (case f s x i of
        (s', Some e) \<Rightarrow> (s', Some e)
      | (s', None) \<Rightarrow> forEach f xs (Suc i) s')"

record yaml_validation =
  errors :: "string list"
  data :: "jsval option"

definition actions_array_error :: string where
  "actions_array_error = ''YAML must contain an '' @ [CHR 0x27] @ ''actions'' @ [CHR 0x27] @ '' array''"

definition missing_action_error :: "nat \<Rightarrow> string" where
  "missing_action_error index =
     ''Action at index '' @ nat_to_string index @ '' is missing the '' @ [CHR 0x27] @ ''action''
       @ [CHR 0x27] @ '' property''"

definition unknown_type_error :: "string \<Rightarrow> nat \<Rightarrow> string" where
  "unknown_type_error actionType index =
     ''Unknown action type '' @ [CHR 0x27] @ actionType @ [CHR 0x27] @ '' at index ''
       @ nat_to_string index"

definition missing_prop_error :: "string \<Rightarrow> nat \<Rightarrow> string \<Rightarrow> string" where
  "missing_prop_error actionType index prop =
     ''Action '' @ [CHR 0x27] @ actionType @ [CHR 0x27] @ '' at index '' @ nat_to_string index
       @ '' is missing mandatory property '' @ [CHR 0x27] @ prop @ [CHR 0x27]"

definition primitive_error :: thrown where
  "primitive_error = JsError ''Cannot convert object to primitive value''"

text \<open>
  The callback of \<^verbatim>\<open>definition.mandatoryProps.forEach\<close>: one message for a property
  other than \<^verbatim>\<open>action\<close> whose value on the record is falsy.
\<close>

definition check_prop :: "jsval \<Rightarrow> jsval \<Rightarrow> nat \<Rightarrow> string list \<Rightarrow> string \<Rightarrow> nat
    \<Rightarrow> string list \<times> thrown option" where
  "check_prop action actionType index errs prop k =
     (if prop \<noteq> ''action'' \<and> \<not> js_truthy (js_get action prop)
      then (case to_string actionType of
              None \<Rightarrow> (errs, Some primitive_error)
            | Some t \<Rightarrow> (errs @ [missing_prop_error t index prop], None))
      else (errs, None))"

text \<open>The callback of \<^verbatim>\<open>data.actions.forEach\<close>, on the messages pushed so far.\<close>

definition validate_action :: "string list \<Rightarrow> jsval \<Rightarrow> nat \<Rightarrow> string list \<times> thrown option" where
  "validate_action errs action index =
     (case js_prop action ''action'' of
        Inl e \<Rightarrow> (errs, Some e)
      | Inr actionType \<Rightarrow>
          if \<not> js_truthy actionType then (errs @ [missing_action_error index], None)
          else (case getActionDefinition actionType of
                  None \<Rightarrow>
                    (case to_string actionType of
                       None \<Rightarrow> (errs, Some primitive_error)
                     | Some t \<Rightarrow> (errs @ [unknown_type_error t index], None))
                | Some d \<Rightarrow> forEach (check_prop action actionType index) (mandatoryProps d) 0 errs))"

text \<open>
  The \<^verbatim>\<open>catch\<close> block: one more message, and no document.
\<close>

definition parsing_error :: "string list \<Rightarrow> thrown \<Rightarrow> yaml_validation" where
  "parsing_error errs e =
     \<lparr>errors = errs @ [case e of JsError m \<Rightarrow> ''YAML parsing error: '' @ m
                                | JsOther \<Rightarrow> ''Unknown YAML parsing error''],
      data = None\<rparr>"

fun elements :: "jsval \<Rightarrow> jsval list" where
  "elements (JArr xs) = xs"
| "elements v = []"

text \<open>
  \<^verbatim>\<open>validateYaml\<close>. The deserializer \<^verbatim>\<open>yaml.load\<close> is a library outside of this
  repository: it is the parameter \<open>load\<close>, which throws or returns the parsed value.
\<close>

definition validateYaml :: "(string \<Rightarrow> thrown + jsval) \<Rightarrow> string \<Rightarrow> yaml_validation" where
  "validateYaml load content =
     (case load content of
        Inl e \<Rightarrow> parsing_error [] e
      | Inr d \<Rightarrow>
          if \<not> js_truthy d \<or> \<not> js_truthy (js_get d ''actions'') \<or> \<not> is_array (js_get d ''actions'')
          then \<lparr>errors = [actions_array_error], data = None\<rparr>
          else (case forEach validate_action (elements (js_get d ''actions'')) 0 [] of
                  (errs, Some e) \<Rightarrow> parsing_error errs e
                | (errs, None) \<Rightarrow> \<lparr>errors = errs, data = Some d\<rparr>))"

section \<open>Relationships between actions (\<^verbatim>\<open>findRelationships\<close>)\<close>

record relationship =
  source :: string
  target :: string

text \<open>The node identifier \<^verbatim>\<open>`action-${index}`\<close> of the action at an index.\<close>

definition node_id :: "nat \<Rightarrow> string" where
  "node_id index = ''action-'' @ nat_to_string index"

text \<open>
  \<^verbatim>\<open>dataframeMap\<close> is a plain object, so a key that names a property of
  \<^verbatim>\<open>Object.prototype\<close> reads the inherited value: it is truthy, no array is stored
  under the key, and the call of its \<^verbatim>\<open>push\<close> throws.
\<close>

definition object_prototype_keys :: "string list" where
  "object_prototype_keys =
     [''constructor'', ''__defineGetter__'', ''__defineSetter__'', ''hasOwnProperty'',
      ''__lookupGetter__'', ''__lookupSetter__'', ''isPrototypeOf'', ''propertyIsEnumerable'',
      ''toString'', ''valueOf'', ''__proto__'', ''toLocaleString'']"

text \<open>The callback of the first loop: the index joins the list kept under the dataframe.\<close>

definition map_dataframe :: "(string \<times> nat list) list \<Rightarrow> jsval \<Rightarrow> nat
    \<Rightarrow> (string \<times> nat list) list \<times> thrown option" where
  "map_dataframe dataframeMap action index =
     (case js_prop action ''dataframe'' of
        Inl e \<Rightarrow> (dataframeMap, Some e)
      | Inr df \<Rightarrow>
          if js_truthy df then
            (case to_string df of
               None \<Rightarrow> (dataframeMap, Some primitive_error)
             | Some k \<Rightarrow>
                 if k \<in> set object_prototype_keys
                 then (dataframeMap,
                       Some (JsError ''dataframeMap[action.dataframe].push is not a function''))
                 else (AList.update k
                         ((case map_of dataframeMap k of None \<Rightarrow> [] | Some l \<Rightarrow> l) @ [index])
                         dataframeMap, None))
          else (dataframeMap, None))"

text \<open>\<^verbatim>\<open>text.includes(v)\<close>: the argument is converted to text first.\<close>

definition includes_value :: "string \<Rightarrow> jsval \<Rightarrow> thrown + bool" where
  "includes_value text v =
     (case to_string v of None \<Rightarrow> Inl primitive_error | Some p \<Rightarrow> Inr (js_includes text p))"

text \<open>\<^verbatim>\<open>xs.some(f)\<close>: stops at the first element for which \<open>f\<close> holds, or throws.\<close>

fun js_some :: "('a \<Rightarrow> thrown + bool) \<Rightarrow> 'a list \<Rightarrow> thrown + bool" where
  "js_some f [] = Inr False"
| "js_some f (x # xs) =
     (case f x of Inl e \<Rightarrow> Inl e | Inr True \<Rightarrow> Inr True | Inr False \<Rightarrow> js_some f xs)"

text \<open>The callback of \<^verbatim>\<open>Object.entries(targetAction).some\<close>.\<close>

definition uses_in_entry :: "jsval \<Rightarrow> string \<times> jsval \<Rightarrow> thrown + bool" where
  "uses_in_entry sourceDataframe entry =
     (case entry of (key, v) \<Rightarrow>
        if key = ''action'' \<or> key = ''name'' then Inr False
        else (case v of
                JStr text \<Rightarrow> includes_value text sourceDataframe
              | JArr items \<Rightarrow>
                  js_some (\<lambda>item. case item of
                                     JStr text \<Rightarrow> includes_value text sourceDataframe
                                   | _ \<Rightarrow> Inr False) items
              | _ \<Rightarrow> Inr False))"

definition usesDataframe :: "jsval \<Rightarrow> jsval \<Rightarrow> thrown + bool" where
  "usesDataframe sourceDataframe targetAction =
     (case object_entries targetAction of
        Inl e \<Rightarrow> Inl e
      | Inr entries \<Rightarrow> js_some (uses_in_entry sourceDataframe) entries)"

text \<open>The callback of the inner loop, for one source and one target.\<close>

definition relate :: "jsval \<Rightarrow> nat \<Rightarrow> relationship list \<Rightarrow> jsval \<Rightarrow> nat
    \<Rightarrow> relationship list \<times> thrown option" where
  "relate sourceDataframe sourceIndex relationships targetAction targetIndex =
     (if sourceIndex = targetIndex then (relationships, None)
      else (case js_prop targetAction ''action'' of
              Inl e \<Rightarrow> (relationships, Some e)
            | Inr tag \<Rightarrow>
                if strict_eq tag (JStr ''Load'')
                   \<and> strict_eq (js_get targetAction ''dataframe'') sourceDataframe
                then (relationships, None)
                else (case usesDataframe sourceDataframe targetAction of
                        Inl e \<Rightarrow> (relationships, Some e)
                      | Inr True \<Rightarrow>
                          (relationships @ [\<lparr>source = node_id sourceIndex,
                                              target = node_id targetIndex\<rparr>], None)
                      | Inr False \<Rightarrow> (relationships, None))))"

text \<open>The callback of the outer loop.\<close>

definition relate_source :: "jsval list \<Rightarrow> relationship list \<Rightarrow> jsval \<Rightarrow> nat
    \<Rightarrow> relationship list \<times> thrown option" where
  "relate_source actions relationships sourceAction sourceIndex =
     (case js_prop sourceAction ''dataframe'' of
        Inl e \<Rightarrow> (relationships, Some e)
      | Inr sourceDataframe \<Rightarrow>
          forEach (relate sourceDataframe sourceIndex) actions 0 relationships)"

definition findRelationships :: "jsval list \<Rightarrow> thrown + relationship list" where
  "findRelationships actions =
     (case forEach map_dataframe actions 0 [] of
        (dataframeMap, Some e) \<Rightarrow> Inl e
      | (dataframeMap, None) \<Rightarrow>
          (case forEach (relate_source actions) actions 0 [] of
             (relationships, Some e) \<Rightarrow> Inl e
           | (relationships, None) \<Rightarrow> Inr relationships))"

section \<open>Embedded SQL (\<^verbatim>\<open>src/lib/sql-utils.js\<close>)\<close>

definition SQL_KEYWORDS :: "string list" where
  "SQL_KEYWORDS =
     [''SELECT'', ''FROM'', ''WHERE'', ''JOIN'', ''INNER'', ''LEFT'', ''RIGHT'', ''OUTER'', ''ON'',
      ''INSERT'', ''INTO'', ''VALUES'', ''UPDATE'', ''SET'', ''DELETE'', ''CREATE'', ''TABLE'',
      ''ALTER'', ''DROP'', ''INDEX'', ''VIEW'', ''PROCEDURE'', ''FUNCTION'', ''TRIGGER'', ''AND'',
      ''OR'', ''NOT'', ''IN'', ''EXISTS'', ''BETWEEN'', ''LIKE'', ''IS'', ''NULL'', ''ORDER'', ''BY'',
      ''GROUP'', ''HAVING'', ''DISTINCT'', ''COUNT'', ''SUM'', ''AVG'', ''MIN'', ''MAX'', ''CASE'',
      ''WHEN'', ''THEN'', ''ELSE'', ''END'', ''AS'', ''UNION'', ''INTERSECT'', ''EXCEPT'', ''WITH'',
      ''RECURSIVE'', ''LIMIT'', ''OFFSET'', ''TOP'']"

text \<open>The nine patterns of \<^verbatim>\<open>detectSQLSyntax\<close>, all under the \<^verbatim>\<open>i\<close> flag.\<close>

definition sqlPatterns :: "rx list" where
  "sqlPatterns =
     [rx_seq [RWordB, rx_text ''SELECT'', rx_plus RSpace, RStar RAny, rx_plus RSpace,
              rx_text ''FROM'', RWordB],
      rx_seq [RWordB, rx_text ''INSERT'', rx_plus RSpace, rx_text ''INTO'', RWordB],
      rx_seq [RWordB, rx_text ''UPDATE'', rx_plus RSpace, RStar RAny, rx_plus RSpace,
              rx_text ''SET'', RWordB],
      rx_seq [RWordB, rx_text ''DELETE'', rx_plus RSpace, rx_text ''FROM'', RWordB],
      rx_seq [RWordB, rx_text ''CREATE'', rx_plus RSpace,
              rx_alts [rx_text ''TABLE'', rx_text ''VIEW'', rx_text ''INDEX''], RWordB],
      rx_seq [RWordB, rx_text ''ALTER'', rx_plus RSpace, rx_text ''TABLE'', RWordB],
      rx_seq [RWordB, rx_text ''DROP'', rx_plus RSpace,
              rx_alts [rx_text ''TABLE'', rx_text ''VIEW'', rx_text ''INDEX''], RWordB],
      rx_seq [RWordB, rx_text ''WHERE'', rx_plus RSpace, RStar RAny, rx_text ''=''],
      rx_seq [RWordB, rx_text ''JOIN'', rx_plus RSpace, RStar RAny, rx_plus RSpace,
              rx_text ''ON'', RWordB]]"

definition detectSQLSyntax :: "jsval \<Rightarrow> bool" where
  "detectSQLSyntax text =
     (case text of
        JStr t \<Rightarrow>
          if t = [] then False
          else let upperText = js_toUpperCase t;
                   hasPattern = list_ex (\<lambda>pattern. rx_test True pattern t) sqlPatterns;
                   keywordCount = length (filter (\<lambda>keyword. js_includes upperText keyword) SQL_KEYWORDS)
               in hasPattern \<or> keywordCount \<ge> 2
      | _ \<Rightarrow> False)"

text \<open>
  The formatter \<^verbatim>\<open>format\<close> of the package \<^verbatim>\<open>sql-formatter\<close> is outside of this
  repository. It is the parameter \<open>format\<close> of the functions that call it: it takes
  the text and the options object (undefined when the call gives none) and returns
  the formatted text or throws.
\<close>

type_synonym formatter = "string \<Rightarrow> jsval \<Rightarrow> thrown + string"

definition defaultOptions :: "(string \<times> jsval) list" where
  "defaultOptions =
     [(''language'', JStr ''sql''), (''tabWidth'', JNum ''2''), (''useTabs'', JBool False),
      (''keywordCase'', JStr ''upper''), (''identifierCase'', JStr ''preserve''),
      (''functionCase'', JStr ''upper''), (''dataTypeCase'', JStr ''upper''),
      (''linesBetweenQueries'', JNum ''2''), (''denseOperators'', JBool False),
      (''newlineBeforeOpeningParenthesis'', JBool False),
      (''newlineBeforeClosingParenthesis'', JBool False)]"

text \<open>\<^verbatim>\<open>{ ...ps, ...v }\<close>: the own properties of \<open>v\<close> are set on a copy of \<open>ps\<close>, in order.\<close>

definition spread_over :: "(string \<times> jsval) list \<Rightarrow> jsval \<Rightarrow> (string \<times> jsval) list" where
  "spread_over ps v = foldl (\<lambda>acc (k, x). AList.update k x acc) ps (own_entries v)"

definition formatSQL :: "formatter \<Rightarrow> jsval \<Rightarrow> jsval \<Rightarrow> jsval" where
  "formatSQL format sql options =
     (case sql of
        JStr t \<Rightarrow>
          if t = [] then sql
          else (case format t (JObj (spread_over defaultOptions options)) of
                  Inr formatted \<Rightarrow> JStr formatted
                | Inl e \<Rightarrow> sql)
      | _ \<Rightarrow> sql)"

record sql_validation =
  isValid :: bool
  sql_errors :: "string list"
  warnings :: "string list"

text \<open>\<^verbatim>\<open>error.message\<close> of what the formatter threw.\<close>

fun message_of :: "thrown \<Rightarrow> string" where
  "message_of (JsError m) = m"
| "message_of JsOther = ''undefined''"

definition count_matches :: "rx \<Rightarrow> string \<Rightarrow> nat" where
  "count_matches r s = length (js_match_all False r s)"

text \<open>The callback of \<^verbatim>\<open>joinMatches.forEach\<close>.\<close>

definition check_join :: "string \<Rightarrow> string list \<Rightarrow> string \<Rightarrow> string list" where
  "check_join upperSQL warns joinMatch =
     (let afterJoin = js_substring upperSQL (js_indexOf upperSQL joinMatch + int (length joinMatch))
      in if \<not> js_includes afterJoin ''ON'' \<and> \<not> js_includes afterJoin ''USING''
         then warns @ [''JOIN clause missing ON condition: '' @ joinMatch]
         else warns)"

text \<open>
  The four injection patterns: \<^verbatim>\<open>/;\s*(DROP|DELETE|UPDATE|INSERT)/i\<close>,
  \<^verbatim>\<open>/UNION\s+SELECT/i\<close>, \<^verbatim>\<open>/--\s*$/m\<close> and \<^verbatim>\<open>/\/\*.*\*\//\<close>, each with its
  \<^verbatim>\<open>i\<close> flag.
\<close>

definition injectionPatterns :: "(bool \<times> rx) list" where
  "injectionPatterns =
     [(True, rx_seq [RLit CHR '';'', RStar RSpace,
                     rx_alts [rx_text ''DROP'', rx_text ''DELETE'', rx_text ''UPDATE'',
                              rx_text ''INSERT'']]),
      (True, rx_seq [rx_text ''UNION'', rx_plus RSpace, rx_text ''SELECT'']),
      (False, rx_seq [rx_text ''--'', RStar RSpace, REol]),
      (False, rx_seq [rx_text ''/*'', RStar RAny, rx_text ''*/''])]"

definition select_without_from_warning :: string where
  "select_without_from_warning = ''SELECT statement without FROM clause''"

definition update_without_where_warning :: string where
  "update_without_where_warning =
     ''UPDATE statement without WHERE clause - this will affect all rows''"

definition delete_without_where_warning :: string where
  "delete_without_where_warning =
     ''DELETE statement without WHERE clause - this will delete all rows''"

definition validateSQL :: "formatter \<Rightarrow> jsval \<Rightarrow> sql_validation" where
  "validateSQL format sql =
     (case sql of
        JStr t \<Rightarrow>
          if t = [] then \<lparr>isValid = True, sql_errors = [], warnings = []\<rparr>
          else
            let e1 = (case format t JUndefined of
                        Inl e \<Rightarrow> [''SQL syntax error: '' @ message_of e]
                      | Inr formatted \<Rightarrow> []);
                upperSQL = js_toUpperCase t;
                openParens = count_matches (RLit CHR ''('') t;
                closeParens = count_matches (RLit CHR '')'') t;
                e2 = e1 @ (if openParens \<noteq> closeParens
                           then [''Unmatched parentheses in SQL statement''] else []);
                singleQuotes = count_matches (RSeq (RNotAfter CHR 0x5C) (RLit CHR 0x27)) t;
                doubleQuotes = count_matches (RSeq (RNotAfter CHR 0x5C) (RLit CHR 0x22)) t;
                e3 = e2 @ (if singleQuotes mod 2 \<noteq> 0
                           then [''Unmatched single quotes in SQL statement''] else []);
                e4 = e3 @ (if doubleQuotes mod 2 \<noteq> 0
                           then [''Unmatched double quotes in SQL statement''] else []);
                w1 = (if js_includes upperSQL ''SELECT'' \<and> \<not> js_includes upperSQL ''FROM''
                         \<and> \<not> rx_test True
                               (rx_seq [rx_text ''SELECT'', rx_plus RSpace,
                                        rx_alts [rx_text ''@@'', rx_text ''GETDATE'',
                                                 rx_text ''CURRENT_'', rx_text ''NOW'']])
                               upperSQL
                      then [select_without_from_warning] else []);
                w2 = w1 @ (if js_includes upperSQL ''UPDATE'' \<and> js_includes upperSQL ''SET''
                              \<and> \<not> js_includes upperSQL ''WHERE''
                           then [update_without_where_warning] else []);
                w3 = w2 @ (if js_includes upperSQL ''DELETE FROM'' \<and> \<not> js_includes upperSQL ''WHERE''
                           then [delete_without_where_warning] else []);
                joinMatches = js_match_all False
                                (rx_seq [rx_text ''JOIN'', rx_plus RSpace, rx_plus RWord]) upperSQL;
                w4 = foldl (check_join upperSQL) w3 joinMatches;
                w5 = foldl (\<lambda>warns (ic, pattern).
                              if rx_test ic pattern t
                              then warns @ [''Potential SQL injection pattern detected'']
                              else warns) w4 injectionPatterns;
                w6 = w5 @ (if js_includes upperSQL ''*='' \<or> js_includes upperSQL ''=*''
                           then [''Deprecated outer join syntax detected, use explicit JOIN syntax'']
                           else []);
                w7 = w6 @ (if length (js_split CHR '';'' t) > 1
                              \<and> \<not> suffix '';'' (js_trim t)
                           then [''Consider ending SQL statements with semicolon''] else [])
            in \<lparr>isValid = (length e4 = 0), sql_errors = e4, warnings = w7\<rparr>
      | _ \<Rightarrow> \<lparr>isValid = True, sql_errors = [], warnings = []\<rparr>)"

definition potentialSQLProps :: "string list" where
  "potentialSQLProps =
     [''script'', ''query'', ''sql'', ''command'', ''statement'', ''procedure'', ''transformation'',
      ''transformations'', ''condition'', ''filter'', ''select'', ''where'', ''join'', ''subquery'']"

text \<open>The callback of \<^verbatim>\<open>Object.entries(action).forEach\<close>, on the names pushed so far.\<close>

definition identify_entry :: "string list \<Rightarrow> string \<times> jsval \<Rightarrow> string list" where
  "identify_entry sqlProperties entry =
     (case entry of (key, v) \<Rightarrow>
        if is_string v \<and> (case v of JStr t \<Rightarrow> length t > 10 | _ \<Rightarrow> False) then
          (let keyLower = js_toLowerCase key;
               nameContainsSQL = list_ex (\<lambda>prop. js_includes keyLower prop) potentialSQLProps;
               valueContainsSQL = detectSQLSyntax v
           in if nameContainsSQL \<or> valueContainsSQL then sqlProperties @ [key] else sqlProperties)
        else if is_array v then
          (if list_ex (\<lambda>item. is_string item \<and> detectSQLSyntax item) (elements v)
           then sqlProperties @ [key] else sqlProperties)
        else sqlProperties)"

definition identifySQLProperties :: "jsval \<Rightarrow> string list" where
  "identifySQLProperties action =
     (if \<not> js_truthy action \<or> \<not> typeof_object action then []
      else foldl identify_entry [] (own_entries action))"

subsection \<open>Formatting the SQL of an action\<close>

text \<open>
  \<^verbatim>\<open>autoFormatSQLInAction\<close> copies its argument and assigns to properties of the copy.
  To tell the copy from the argument, objects live in a store: a list of cells, an
  object's reference being the index of its cell. The function takes the store and the
  reference it is called with, and returns the store it leaves and the reference it
  returns. The values of properties stay trees: the function replaces an array by a new
  one and never writes into one.
\<close>

type_synonym store = "jsval list"

text \<open>\<^verbatim>\<open>obj[prop] = v\<close> on a plain object.\<close>

fun js_set :: "jsval \<Rightarrow> string \<Rightarrow> jsval \<Rightarrow> jsval" where
  "js_set (JObj ps) k v = JObj (AList.update k v ps)"
| "js_set other k v = other"

text \<open>The callback of \<^verbatim>\<open>sqlProperties.forEach\<close>; \<open>r\<close> refers to \<^verbatim>\<open>formattedAction\<close>.\<close>

definition format_prop :: "formatter \<Rightarrow> jsval \<Rightarrow> nat \<Rightarrow> store \<Rightarrow> string \<Rightarrow> store" where
  "format_prop format formatOptions r st prop =
     (let v = js_get (st ! r) prop in
      if is_string v then st[r := js_set (st ! r) prop (formatSQL format v formatOptions)]
      else if is_array v then
        st[r := js_set (st ! r) prop
                 (JArr (map (\<lambda>item. if is_string item \<and> detectSQLSyntax item
                                     then formatSQL format item formatOptions else item)
                            (elements v)))]
      else st)"

definition autoFormatSQLInAction :: "formatter \<Rightarrow> store \<Rightarrow> nat \<Rightarrow> jsval \<Rightarrow> store \<times> nat" where
  "autoFormatSQLInAction format st action formatOptions =
     (if \<not> js_truthy (st ! action) \<or> \<not> typeof_object (st ! action) then (st, action)
      else let formattedAction = length st;
               st1 = st @ [JObj (own_entries (st ! action))];
               sqlProperties = identifySQLProperties (st1 ! action)
           in (foldl (format_prop format formatOptions formattedAction) st1 sqlProperties,
               formattedAction))"

section \<open>Notions of the specification\<close>

text \<open>
  The required properties of a definition, other than \<^verbatim>\<open>action\<close>, whose value on a
  record is falsy: the ones the validation reports.
\<close>

definition falsy_required :: "jsval \<Rightarrow> action_definition \<Rightarrow> string list" where
  "falsy_required action d =
     filter (\<lambda>prop. prop \<noteq> ''action'' \<and> \<not> js_truthy (js_get action prop)) (mandatoryProps d)"

text \<open>
  The specification counts the required fields that are "absent or empty". In its
  words: a field is absent when the record has no value for it, and empty when its
  value is null, the empty text, the empty sequence or the empty mapping.
\<close>

fun absent_or_empty :: "jsval \<Rightarrow> bool" where
  "absent_or_empty JUndefined = True"
| "absent_or_empty JNull = True"
| "absent_or_empty (JStr s) = (s = [])"
| "absent_or_empty (JArr xs) = (xs = [])"
| "absent_or_empty (JObj ps) = (ps = [])"
| "absent_or_empty v = False"

definition absent_or_empty_required :: "jsval \<Rightarrow> action_definition \<Rightarrow> string list" where
  "absent_or_empty_required action d =
     filter (\<lambda>prop. prop \<noteq> ''action'' \<and> absent_or_empty (js_get action prop)) (mandatoryProps d)"

text \<open>
  What the inner callback of \<^verbatim>\<open>findRelationships\<close> adds for the source at index \<open>i\<close>
  and the target at index \<open>j\<close>.
\<close>

definition pair_edges :: "jsval list \<Rightarrow> nat \<Rightarrow> nat \<Rightarrow> relationship list" where
  "pair_edges actions i j = fst (relate (js_get (actions ! i) ''dataframe'') i [] (actions ! j) j)"

text \<open>
  An element on which neither loop of \<^verbatim>\<open>findRelationships\<close> throws: it is not null,
  and its dataframe has a text that is not the name of a property of
  \<^verbatim>\<open>Object.prototype\<close>.
\<close>

definition well_keyed :: "jsval \<Rightarrow> bool" where
  "well_keyed a =
     (a \<noteq> JNull \<and> a \<noteq> JUndefined
      \<and> (case to_string (js_get a ''dataframe'') of
            None \<Rightarrow> False
          | Some k \<Rightarrow> k \<notin> set object_prototype_keys))"

section \<open>The bounds of the matcher are enough\<close>

text \<open>
  A match never ends before its start nor after the end of the text. A star that has
  at least as many iterations left as there are characters after its position gives
  the same ends with one more: the bound \<open>length s\<close> loses no match. Likewise the
  bound on the number of matches of a global search.
\<close>

lemma rx_ends_range:
  "j \<in> set (rx_ends ic s f r i) \<Longrightarrow> i \<le> j \<and> j \<le> max i (length s)"
proof (induction ic s f r i arbitrary: j rule: rx_ends.induct)
  case (6 ic s f a b i)
  then obtain m where m: "m \<in> set (rx_ends ic s f a i)" "j \<in> set (rx_ends ic s f b m)" by auto
  from "6.IH"(1) [OF m(1)] "6.IH"(2) [OF m(1) m(2)] show ?case by auto
next
  case (9 ic s f a i)
  show ?case
  proof (cases "j = i")
    case True
    then show ?thesis by simp
  next
    case False
    with "9.prems" obtain m where m: "m \<in> set (rx_ends ic s (Suc f) a i)" "i < m"
      "j \<in> set (rx_ends ic s f (RStar a) m)" by (auto split: if_splits)
    from "9.IH"(1) [OF m(1)] "9.IH"(2) [OF m(1) m(2) m(3)] show ?thesis by auto
  qed
qed (auto split: if_splits)

lemma rx_ends_fuel:
  "length s - i \<le> f \<Longrightarrow> rx_ends ic s (Suc f) r i = rx_ends ic s f r i"
proof (induction ic s f r i rule: rx_ends.induct)
  case (6 ic s f a b i)
  have "rx_ends ic s (Suc f) b j = rx_ends ic s f b j" if "j \<in> set (rx_ends ic s f a i)" for j
    using "6.IH"(2) [OF that] rx_ends_range [OF that] "6.prems" by auto
  then show ?case using "6.IH"(1) [OF "6.prems"] by (simp cong: map_cong)
next
  case (8 ic s a i)
  have "\<not> i < j" if "j \<in> set (rx_ends ic s (Suc 0) a i)" for j
    using rx_ends_range [OF that] "8.prems" by auto
  then have "concat (map (\<lambda>j. if i < j then rx_ends ic s 0 (RStar a) j else [])
                 (rx_ends ic s (Suc 0) a i)) = []"
    by auto
  then show ?case by simp
next
  case (9 ic s f a i)
  have a: "rx_ends ic s (Suc (Suc f)) a i = rx_ends ic s (Suc f) a i"
    using "9.IH"(1) "9.prems" by simp
  have "(if i < j then rx_ends ic s (Suc f) (RStar a) j else [])
      = (if i < j then rx_ends ic s f (RStar a) j else [])"
    if "j \<in> set (rx_ends ic s (Suc f) a i)" for j
    using "9.IH"(2) [OF that] "9.prems" by auto
  then show ?case using a by (simp cong: map_cong)
qed simp_all

lemma rx_ends_enough_fuel:
  "length s - i \<le> f \<Longrightarrow> rx_ends ic s (f + k) r i = rx_ends ic s f r i"
  by (induction k) (simp_all add: rx_ends_fuel)


lemma find_SomeD: "List.find P xs = Some x \<Longrightarrow> x \<in> set xs \<and> P x"
  by (induction xs) (auto split: if_splits)

lemma rx_exec_range:
  assumes "rx_exec ic r s i = Some (p, e)"
  shows "i \<le> p \<and> p \<le> e"
proof -
  from assms obtain q where q: "List.find (\<lambda>p. rx_match_at ic r s p \<noteq> None) [i..<Suc (length s)] = Some q"
    and pe: "p = q" "rx_match_at ic r s q = Some e"
    by (auto simp: rx_exec_def split: option.splits)
  from find_SomeD [OF q] have "q \<in> set [i..<Suc (length s)]"
    and m: "rx_match_at ic r s q \<noteq> None"
    by blast+
  then have "i \<le> q" by (simp del: upt_Suc)
  from m obtain e' es where "rx_ends ic s (length s) r q = e' # es"
    by (auto simp: rx_match_at_def split: list.splits)
  then have "e' \<in> set (rx_ends ic s (length s) r q)" and "rx_match_at ic r s q = Some e'"
    by (simp_all add: rx_match_at_def)
  with rx_ends_range [of e' ic s "length s" r q] pe \<open>i \<le> q\<close> show ?thesis by simp
qed

lemma rx_exec_beyond: "length s < i \<Longrightarrow> rx_exec ic r s i = None"
  by (simp add: rx_exec_def)

lemma rx_matches_from_fuel:
  "Suc (length s) - i \<le> k \<Longrightarrow> rx_matches_from (Suc k) ic r s i = rx_matches_from k ic r s i"
proof (induction k arbitrary: i)
  case 0
  then show ?case by (simp add: rx_exec_beyond)
next
  case (Suc k)
  show ?case
  proof (cases "rx_exec ic r s i")
    case None
    then show ?thesis by simp
  next
    case (Some pe)
    obtain p e where pe: "pe = (p, e)" by (cases pe)
    from rx_exec_range [of ic r s i p e] Some pe have "i \<le> p" "p \<le> e" by simp_all
    then have "Suc (length s) - (if e = p then Suc e else e) \<le> k"
      using Suc.prems by auto
    from Suc.IH [OF this] Some pe show ?thesis by simp
  qed
qed

section \<open>Loops that only append\<close>

text \<open>
  A callback that appends to the list it is given, and a loop of it that does not
  throw: the result is the list at the start followed by what the callback appends for
  each element, in order.
\<close>

lemma forEach_append:
  assumes app: "\<And>s x i. f s x i = (s @ fst (f [] x i), snd (f [] x i))"
    and run: "forEach f xs k s = (s', None)"
  shows "s' = s @ concat (map (\<lambda>(i, x). fst (f [] x i)) (List.enumerate k xs))
         \<and> (\<forall>(i, x) \<in> set (List.enumerate k xs). snd (f [] x i) = None)"
  using run
proof (induction xs arbitrary: k s)
  case Nil
  then show ?case by simp
next
  case (Cons x xs)
  have fx: "f s x k = (s @ fst (f [] x k), snd (f [] x k))" by (rule app)
  show ?case
  proof (cases "snd (f [] x k)")
    case None
    with Cons.prems fx have "forEach f xs (Suc k) (s @ fst (f [] x k)) = (s', None)" by simp
    from Cons.IH [OF this] None show ?thesis by simp
  next
    case (Some e)
    with Cons.prems fx show ?thesis by simp
  qed
qed

lemma forEach_no_throw:
  assumes "\<And>s x i. x \<in> set xs \<Longrightarrow> snd (f s x i) = None"
  shows "snd (forEach f xs k s) = None"
  using assms
proof (induction xs arbitrary: k s)
  case Nil
  then show ?case by simp
next
  case (Cons x xs)
  have "snd (f s x k) = None" using Cons.prems by simp
  then obtain s1 where "f s x k = (s1, None)" by (cases "f s x k") auto
  then show ?case using Cons by simp
qed

lemma forEach_append_state:
  assumes app: "\<And>s x i. f s x i = (s @ fst (f [] x i), snd (f [] x i))"
  shows "forEach f xs k s = (s @ fst (forEach f xs k []), snd (forEach f xs k []))"
proof (induction xs arbitrary: k s)
  case Nil
  then show ?case by simp
next
  case (Cons x xs)
  obtain a r where fx0: "f [] x k = (a, r)" by (cases "f [] x k")
  with app [of s x k] have fx: "f s x k = (s @ a, r)" by simp
  show ?case
  proof (cases r)
    case None
    have "forEach f (x # xs) k s = forEach f xs (Suc k) (s @ a)" using fx None by simp
    also have "\<dots> = ((s @ a) @ fst (forEach f xs (Suc k) []), snd (forEach f xs (Suc k) []))"
      by (rule Cons.IH)
    finally have l: "forEach f (x # xs) k s
        = (s @ a @ fst (forEach f xs (Suc k) []), snd (forEach f xs (Suc k) []))" by simp
    have "forEach f (x # xs) k [] = forEach f xs (Suc k) a" using fx0 None by simp
    also have "\<dots> = (a @ fst (forEach f xs (Suc k) []), snd (forEach f xs (Suc k) []))"
      by (rule Cons.IH)
    finally show ?thesis using l by simp
  next
    case (Some e)
    then show ?thesis using fx fx0 by simp
  qed
qed

section \<open>Properties of the relationship inference\<close>

text \<open>
  C1. For the document of two records, an Extract named \<^verbatim>\<open>a\<close> with dataframe \<^verbatim>\<open>d1\<close> and
  location \<^verbatim>\<open>p\<close>, then a Transform named \<^verbatim>\<open>b\<close> with dataframe \<^verbatim>\<open>d2\<close> and the single
  transformation \<^verbatim>\<open>select * from d1\<close>, \<^verbatim>\<open>findRelationships\<close> returns exactly one edge:
  from the node of index 0 to the node of index 1. The code names the node of index
  \<open>i\<close> by the text \<^verbatim>\<open>action-i\<close>.
\<close>

theorem findRelationships_extract_transform:
  "findRelationships
     [JObj [(''action'', JStr ''Extract''), (''name'', JStr ''a''), (''dataframe'', JStr ''d1''),
            (''location'', JStr ''p'')],
      JObj [(''action'', JStr ''Transform''), (''name'', JStr ''b''), (''dataframe'', JStr ''d2''),
            (''transformations'', JArr [JStr ''select * from d1''])]]
   = Inr [\<lparr>source = node_id 0, target = node_id 1\<rparr>]
   \<and> node_id 0 = ''action-0'' \<and> node_id 1 = ''action-1''"
  by code_simp

subsection \<open>Node identifiers name one index\<close>

lemma nat_to_string_not_Nil: "nat_to_string n \<noteq> []"
  by (subst nat_to_string.simps) simp

lemma digit_char_inj:
  assumes "a < 10" "b < 10" "(char_of (48 + a) :: char) = char_of (48 + b)"
  shows "a = (b::nat)"
proof -
  have "(of_char (char_of (48 + a) :: char) :: nat) = of_char (char_of (48 + b) :: char)"
    using assms(3) by simp
  then show ?thesis using assms(1,2) by simp
qed

lemma nat_to_string_inj: "nat_to_string m = nat_to_string n \<Longrightarrow> m = n"
proof (induction m arbitrary: n rule: nat_to_string.induct)
  case (1 m)
  show ?case
  proof (cases "m < 10")
    case m: True
    show ?thesis
    proof (cases "n < 10")
      case True
      with m "1.prems" show ?thesis
        by (simp add: nat_to_string.simps [of m] nat_to_string.simps [of n] digit_char_inj)
    next
      case False
      with m "1.prems" nat_to_string_not_Nil [of "n div 10"] show ?thesis
        by (simp add: nat_to_string.simps [of m] nat_to_string.simps [of n])
    qed
  next
    case m: False
    show ?thesis
    proof (cases "n < 10")
      case True
      with m "1.prems" nat_to_string_not_Nil [of "m div 10"] show ?thesis
        by (simp add: nat_to_string.simps [of m] nat_to_string.simps [of n])
    next
      case False
      with m "1.prems" have eq: "nat_to_string (m div 10) = nat_to_string (n div 10)"
        and d: "(char_of (48 + m mod 10) :: char) = char_of (48 + n mod 10)"
        by (simp_all add: nat_to_string.simps [of m] nat_to_string.simps [of n])
      from "1.IH" [OF m eq] have "m div 10 = n div 10" .
      moreover from d have "m mod 10 = n mod 10"
        by (intro digit_char_inj) simp_all
      ultimately show ?thesis by (metis div_mult_mod_eq)
    qed
  qed
qed

lemma node_id_inj: "node_id a = node_id b \<Longrightarrow> a = b"
  by (simp add: node_id_def nat_to_string_inj)

subsection \<open>The edges, pair by pair\<close>

lemma relate_append:
  "relate df si R a t = (R @ fst (relate df si [] a t), snd (relate df si [] a t))"
  by (auto simp: relate_def split: sum.splits bool.splits)

lemma relate_source_append:
  "relate_source acts R sa si
   = (R @ fst (relate_source acts [] sa si), snd (relate_source acts [] sa si))"
proof (cases "js_prop sa ''dataframe''")
  case (Inl e)
  then show ?thesis by (simp add: relate_source_def)
next
  case (Inr df)
  then show ?thesis
    using forEach_append_state [of "relate df si" acts 0 R, OF relate_append]
    by (simp add: relate_source_def)
qed

lemma enumerate_nth: "List.enumerate 0 xs = map (\<lambda>i. (i, xs ! i)) [0..<length xs]"
  by (rule nth_equalityI) (simp_all add: nth_enumerate_eq)

lemma relate_source_edges:
  assumes "snd (relate_source acts [] (acts ! i) i) = None"
  shows "fst (relate_source acts [] (acts ! i) i)
         = concat (map (\<lambda>j. pair_edges acts i j) [0..<length acts])"
proof (cases "js_prop (acts ! i) ''dataframe''")
  case (Inl e)
  then show ?thesis using assms by (simp add: relate_source_def)
next
  case (Inr df)
  then have df: "df = js_get (acts ! i) ''dataframe''"
    by (auto simp: js_prop_def split: if_splits)
  from Inr assms obtain R where run: "forEach (relate df i) acts 0 [] = (R, None)"
    by (cases "forEach (relate df i) acts 0 []") (auto simp: relate_source_def)
  from forEach_append [of "relate df i" acts 0 "[]" R, OF relate_append run]
  have "R = concat (map (\<lambda>(j, a). fst (relate df i [] a j)) (List.enumerate 0 acts))" by simp
  then have "R = concat (map (\<lambda>j. pair_edges acts i j) [0..<length acts])"
    by (simp add: enumerate_nth pair_edges_def df comp_def)
  then show ?thesis using Inr run by (simp add: relate_source_def)
qed

lemma findRelationships_edges:
  assumes "findRelationships acts = Inr rels"
  shows "rels = concat (map (\<lambda>i. concat (map (\<lambda>j. pair_edges acts i j) [0..<length acts]))
                            [0..<length acts])"
proof -
  from assms obtain R where run: "forEach (relate_source acts) acts 0 [] = (R, None)" and "R = rels"
    by (auto simp: findRelationships_def split: prod.splits option.splits)
  from forEach_append [of "relate_source acts" acts 0 "[]" R, OF relate_source_append run]
  have R: "R = concat (map (\<lambda>(i, a). fst (relate_source acts [] a i)) (List.enumerate 0 acts))"
    and ok: "\<forall>(i, a) \<in> set (List.enumerate 0 acts). snd (relate_source acts [] a i) = None"
    by simp_all
  have "\<And>i. i < length acts \<Longrightarrow> fst (relate_source acts [] (acts ! i) i)
            = concat (map (\<lambda>j. pair_edges acts i j) [0..<length acts])"
    using ok by (intro relate_source_edges) (auto simp: enumerate_nth)
  then have meq: "map (\<lambda>i. fst (relate_source acts [] (acts ! i) i)) [0..<length acts]
           = map (\<lambda>i. concat (map (\<lambda>j. pair_edges acts i j) [0..<length acts])) [0..<length acts]"
    by simp
  from R have "R = concat (map (\<lambda>i. fst (relate_source acts [] (acts ! i) i)) [0..<length acts])"
    by (simp add: enumerate_nth comp_def)
  also note meq
  finally show ?thesis using \<open>R = rels\<close> by simp
qed

lemma pair_edges_cases:
  "pair_edges acts i j = [] \<or> pair_edges acts i j = [\<lparr>source = node_id i, target = node_id j\<rparr>]"
  by (auto simp: pair_edges_def relate_def split: sum.splits bool.splits)

lemma pair_edges_self: "pair_edges acts i i = []"
  by (simp add: pair_edges_def relate_def)

lemma pair_edges_load:
  assumes "strict_eq (js_get (acts ! j) ''action'') (JStr ''Load'')"
    and "strict_eq (js_get (acts ! j) ''dataframe'') (js_get (acts ! i) ''dataframe'')"
  shows "pair_edges acts i j = []"
  using assms by (auto simp: pair_edges_def relate_def js_prop_def split: sum.splits bool.splits)

lemma in_findRelationships:
  assumes "findRelationships acts = Inr rels" and "r \<in> set rels"
  shows "\<exists>i < length acts. \<exists>j < length acts.
           r = \<lparr>source = node_id i, target = node_id j\<rparr> \<and> pair_edges acts i j = [r]"
proof -
  from findRelationships_edges [OF assms(1)] assms(2)
  obtain i j where ij: "i < length acts" "j < length acts" and r: "r \<in> set (pair_edges acts i j)"
    by auto
  from r pair_edges_cases [of acts i j]
  have pe: "pair_edges acts i j = [\<lparr>source = node_id i, target = node_id j\<rparr>]" by auto
  with r have "r = \<lparr>source = node_id i, target = node_id j\<rparr>" by simp
  with pe ij show ?thesis by blast
qed

lemma concat_pair_edges:
  "concat (map (\<lambda>j. pair_edges acts i j) js)
   = map (\<lambda>j. \<lparr>source = node_id i, target = node_id j\<rparr>) (filter (\<lambda>j. pair_edges acts i j \<noteq> []) js)"
proof (induction js)
  case Nil
  then show ?case by simp
next
  case (Cons j js)
  then show ?case using pair_edges_cases [of acts i j] by auto
qed

lemma concat_concat_pair_edges:
  "concat (map (\<lambda>i. concat (map (\<lambda>j. pair_edges acts i j) js)) is)
   = map (\<lambda>(i, j). \<lparr>source = node_id i, target = node_id j\<rparr>)
       (filter (\<lambda>(i, j). pair_edges acts i j \<noteq> []) (List.product is js))"
  by (induction "is") (simp_all add: concat_pair_edges filter_map comp_def)

lemma findRelationships_distinct:
  assumes "findRelationships acts = Inr rels"
  shows "distinct rels"
proof -
  have "inj_on (\<lambda>(i, j). \<lparr>source = node_id i, target = node_id j\<rparr>) A" for A :: "(nat \<times> nat) set"
    by (auto simp: inj_on_def dest: node_id_inj)
  then show ?thesis
    unfolding findRelationships_edges [OF assms] concat_concat_pair_edges
    by (simp add: distinct_map distinct_product)
qed

subsection \<open>When the function returns\<close>

lemma js_some_returns:
  assumes "\<And>x. x \<in> set xs \<Longrightarrow> \<exists>b. f x = Inr b"
  shows "\<exists>b. js_some f xs = Inr b"
  using assms
proof (induction xs)
  case Nil
  then show ?case by auto
next
  case (Cons x xs)
  from Cons.prems obtain b where "f x = Inr b" by auto
  moreover from Cons have "\<exists>c. js_some f xs = Inr c" by simp
  ultimately show ?case by (cases b) auto
qed

lemma uses_in_entry_returns:
  assumes "to_string df = Some p"
  shows "\<exists>b. uses_in_entry df e = Inr b"
proof (cases e)
  case (Pair key v)
  have item: "\<exists>b. (case item of JStr text \<Rightarrow> includes_value text df | _ \<Rightarrow> Inr False) = Inr b"
    for item
    using assms by (cases item) (auto simp: includes_value_def)
  show ?thesis
  proof (cases v)
    case (JArr items)
    with Pair js_some_returns [of items "\<lambda>item. case item of JStr text \<Rightarrow> includes_value text df
                                                   | _ \<Rightarrow> Inr False", OF item]
    show ?thesis by (auto simp: uses_in_entry_def)
  qed (use Pair assms in \<open>auto simp: uses_in_entry_def includes_value_def\<close>)
qed

lemma relate_no_throw:
  assumes "a \<noteq> JNull" "a \<noteq> JUndefined" "to_string df = Some p"
  shows "snd (relate df si R a t) = None"
proof -
  from js_some_returns [of "own_entries a" "uses_in_entry df", OF uses_in_entry_returns [OF assms(3)]]
  obtain b where "usesDataframe df a = Inr b"
    using assms(1,2) by (auto simp: usesDataframe_def object_entries_def)
  then show ?thesis
    using assms(1,2) by (cases b) (simp_all add: relate_def js_prop_def)
qed

lemma well_keyed_text: "well_keyed a \<Longrightarrow> \<exists>p. to_string (js_get a ''dataframe'') = Some p"
  by (auto simp: well_keyed_def split: option.splits)

lemma relate_source_no_throw:
  assumes "\<forall>a \<in> set acts. well_keyed a" and "well_keyed sa"
  shows "snd (relate_source acts R sa si) = None"
proof -
  from well_keyed_text [OF assms(2)] obtain p where p: "to_string (js_get sa ''dataframe'') = Some p"
    by blast
  have "snd (forEach (relate (js_get sa ''dataframe'') si) acts 0 R) = None"
  proof (rule forEach_no_throw)
    fix s x i assume "x \<in> set acts"
    with assms(1) have "x \<noteq> JNull" "x \<noteq> JUndefined" by (auto simp: well_keyed_def)
    then show "snd (relate (js_get sa ''dataframe'') si s x i) = None"
      using p by (rule relate_no_throw)
  qed
  then show ?thesis
    using assms(2) by (simp add: relate_source_def js_prop_def well_keyed_def)
qed

lemma map_dataframe_no_throw: "well_keyed a \<Longrightarrow> snd (map_dataframe m a i) = None"
  by (auto simp: map_dataframe_def js_prop_def well_keyed_def split: option.splits)

lemma findRelationships_returns:
  assumes "\<forall>a \<in> set acts. well_keyed a"
  shows "\<exists>rels. findRelationships acts = Inr rels"
proof -
  have "snd (forEach map_dataframe acts 0 []) = None"
    using assms by (intro forEach_no_throw map_dataframe_no_throw) simp
  moreover have "snd (forEach (relate_source acts) acts 0 []) = None"
    using assms by (intro forEach_no_throw relate_source_no_throw) simp_all
  ultimately show ?thesis
    by (auto simp: findRelationships_def split: prod.splits option.splits)
qed

subsection \<open>The Load exclusion, self-edges and duplicates\<close>

text \<open>
  C2. For every list of records and every two different indices \<open>i\<close> and \<open>j\<close>: when
  the \<^verbatim>\<open>action\<close> of record \<open>j\<close> is \<^verbatim>\<open>Load\<close> and its \<^verbatim>\<open>dataframe\<close> equals (\<^verbatim>\<open>===\<close>)
  the \<^verbatim>\<open>dataframe\<close> of record \<open>i\<close>, the result of \<^verbatim>\<open>findRelationships\<close> has no edge
  from the node of \<open>i\<close> to the node of \<open>j\<close>, whatever the fields of record \<open>j\<close>
  contain. (When the function throws, it returns no edge at all.) For two texts, and
  for two absent dataframes, \<^verbatim>\<open>===\<close> is equality.
\<close>

theorem findRelationships_skips_load:
  assumes "i < length acts" "j < length acts" "i \<noteq> j"
    and "js_get (acts ! j) ''action'' = JStr ''Load''"
    and "strict_eq (js_get (acts ! j) ''dataframe'') (js_get (acts ! i) ''dataframe'')"
  shows "case findRelationships acts of
           Inl e \<Rightarrow> True
         | Inr rels \<Rightarrow> \<lparr>source = node_id i, target = node_id j\<rparr> \<notin> set rels"
proof (cases "findRelationships acts")
  case (Inl e)
  then show ?thesis by simp
next
  case (Inr rels)
  have "\<lparr>source = node_id i, target = node_id j\<rparr> \<notin> set rels"
  proof
    assume "\<lparr>source = node_id i, target = node_id j\<rparr> \<in> set rels"
    from in_findRelationships [OF Inr this] obtain i' j' where
      eq: "\<lparr>source = node_id i, target = node_id j\<rparr> = \<lparr>source = node_id i', target = node_id j'\<rparr>"
      and pe: "pair_edges acts i' j' = [\<lparr>source = node_id i, target = node_id j\<rparr>]" by blast
    from eq have "i' = i" "j' = j" by (auto dest: node_id_inj)
    with pe have "pair_edges acts i j \<noteq> []" by simp
    moreover have "pair_edges acts i j = []"
      using assms(4,5) by (intro pair_edges_load) simp_all
    ultimately show False by simp
  qed
  with Inr show ?thesis by simp
qed

theorem findRelationships_skips_load_witness:
  "findRelationships
     [JObj [(''action'', JStr ''Extract''), (''name'', JStr ''a''), (''dataframe'', JStr ''x''),
            (''location'', JStr ''p'')],
      JObj [(''action'', JStr ''Load''), (''name'', JStr ''b''), (''dataframe'', JStr ''x''),
            (''destination'', JStr ''bucket/x-out'')]]
   = Inr [\<lparr>source = node_id 1, target = node_id 0\<rparr>]
   \<and> \<lparr>source = node_id 0, target = node_id 1\<rparr>
       \<notin> set [\<lparr>source = node_id 1, target = node_id 0\<rparr>]"
proof -
  have ev: "findRelationships
     [JObj [(''action'', JStr ''Extract''), (''name'', JStr ''a''), (''dataframe'', JStr ''x''),
            (''location'', JStr ''p'')],
      JObj [(''action'', JStr ''Load''), (''name'', JStr ''b''), (''dataframe'', JStr ''x''),
            (''destination'', JStr ''bucket/x-out'')]]
   = Inr [\<lparr>source = node_id 1, target = node_id 0\<rparr>]"
    by code_simp
  show ?thesis
    using findRelationships_skips_load
            [of 0 "[JObj [(''action'', JStr ''Extract''), (''name'', JStr ''a''),
                          (''dataframe'', JStr ''x''), (''location'', JStr ''p'')],
                    JObj [(''action'', JStr ''Load''), (''name'', JStr ''b''),
                          (''dataframe'', JStr ''x''), (''destination'', JStr ''bucket/x-out'')]]" 1]
      ev
    by simp
qed

text \<open>
  C3. For every list of records, every edge that \<^verbatim>\<open>findRelationships\<close> returns goes
  from the node of one index to the node of a different index, so no edge has its
  source equal to its target; and for every ordered pair of indices the list holds the
  edge of the pair at most once, however many fields of the target contain the
  dataframe of the source.
\<close>

theorem findRelationships_no_self_no_duplicate:
  "case findRelationships acts of
     Inl e \<Rightarrow> True
   | Inr rels \<Rightarrow>
       (\<forall>r \<in> set rels. \<exists>i < length acts. \<exists>j < length acts.
            i \<noteq> j \<and> r = \<lparr>source = node_id i, target = node_id j\<rparr>)
       \<and> (\<forall>r \<in> set rels. source r \<noteq> target r)
       \<and> (\<forall>i j. length (filter (\<lambda>r. r = \<lparr>source = node_id i, target = node_id j\<rparr>) rels) \<le> 1)"
proof (cases "findRelationships acts")
  case (Inl e)
  then show ?thesis by simp
next
  case (Inr rels)
  have a: "\<exists>i < length acts. \<exists>j < length acts.
            i \<noteq> j \<and> r = \<lparr>source = node_id i, target = node_id j\<rparr>" if "r \<in> set rels" for r
  proof -
    from in_findRelationships [OF Inr that] obtain i j where
      ij: "i < length acts" "j < length acts" "r = \<lparr>source = node_id i, target = node_id j\<rparr>"
        "pair_edges acts i j = [r]" by blast
    then have "i \<noteq> j" using pair_edges_self [of acts i] by auto
    with ij show ?thesis by blast
  qed
  have b: "source r \<noteq> target r" if "r \<in> set rels" for r
    using a [OF that] by (auto dest: node_id_inj)
  have c: "length (filter (\<lambda>r. r = e) rels) \<le> 1" for e
    using findRelationships_distinct [OF Inr]
    by (induction rels) (auto simp: filter_empty_conv)
  show ?thesis using Inr a b c by simp
qed

theorem findRelationships_no_self_no_duplicate_witness:
  "findRelationships
     [JObj [(''action'', JStr ''Extract''), (''name'', JStr ''a''), (''dataframe'', JStr ''d1''),
            (''location'', JStr ''d1.csv'')],
      JObj [(''action'', JStr ''Transform''), (''name'', JStr ''b''), (''dataframe'', JStr ''d2''),
            (''transformations'', JArr [JStr ''select * from d1'', JStr ''filter d1'']),
            (''note'', JStr ''reads d1 twice'')]]
   = Inr [\<lparr>source = node_id 0, target = node_id 1\<rparr>]
   \<and> source \<lparr>source = node_id 0, target = node_id 1\<rparr>
       \<noteq> target \<lparr>source = node_id 0, target = node_id 1\<rparr>
   \<and> length (filter (\<lambda>r. r = \<lparr>source = node_id 0, target = node_id 1\<rparr>)
                [\<lparr>source = node_id 0, target = node_id 1\<rparr>]) \<le> 1"
proof -
  have ev: "findRelationships
     [JObj [(''action'', JStr ''Extract''), (''name'', JStr ''a''), (''dataframe'', JStr ''d1''),
            (''location'', JStr ''d1.csv'')],
      JObj [(''action'', JStr ''Transform''), (''name'', JStr ''b''), (''dataframe'', JStr ''d2''),
            (''transformations'', JArr [JStr ''select * from d1'', JStr ''filter d1'']),
            (''note'', JStr ''reads d1 twice'')]]
   = Inr [\<lparr>source = node_id 0, target = node_id 1\<rparr>]"
    by code_simp
  show ?thesis
    using findRelationships_no_self_no_duplicate
            [of "[JObj [(''action'', JStr ''Extract''), (''name'', JStr ''a''),
                        (''dataframe'', JStr ''d1''), (''location'', JStr ''d1.csv'')],
                  JObj [(''action'', JStr ''Transform''), (''name'', JStr ''b''),
                        (''dataframe'', JStr ''d2''),
                        (''transformations'', JArr [JStr ''select * from d1'', JStr ''filter d1'']),
                        (''note'', JStr ''reads d1 twice'')]]"]
      ev
    by simp
qed

section \<open>Properties of the document validation\<close>

text \<open>
  C4. When the parsed value is absent (undefined or null), or its \<^verbatim>\<open>actions\<close> field is
  absent or is not a sequence, \<^verbatim>\<open>validateYaml\<close> returns exactly one error, the one that
  says the document must contain an actions array, and a null document; no record is
  looked at, so there is no error about a record. When the deserializer throws, the
  exception is caught: the result is one error text made from it, and a null document.
\<close>

theorem validateYaml_without_actions:
  "(load content = Inr d \<and>
      (d = JUndefined \<or> d = JNull \<or> js_get d ''actions'' = JUndefined
       \<or> \<not> is_array (js_get d ''actions''))
     \<longrightarrow> validateYaml load content = \<lparr>errors = [actions_array_error], data = None\<rparr>)
   \<and> (load content = Inl e
     \<longrightarrow> validateYaml load content =
          \<lparr>errors = [case e of JsError m \<Rightarrow> ''YAML parsing error: '' @ m
                              | JsOther \<Rightarrow> ''Unknown YAML parsing error''],
           data = None\<rparr>)"
  by (auto simp: validateYaml_def parsing_error_def)

theorem validateYaml_without_actions_witness:
  "validateYaml (\<lambda>c. Inr JUndefined) [] = \<lparr>errors = [actions_array_error], data = None\<rparr>
   \<and> validateYaml (\<lambda>c. Inr (JObj [(''actions'', JStr ''none'')])) ''actions: none''
       = \<lparr>errors = [actions_array_error], data = None\<rparr>
   \<and> validateYaml (\<lambda>c. Inl (JsError ''bad indentation'')) ''a: - b''
       = \<lparr>errors = [''YAML parsing error: bad indentation''], data = None\<rparr>"
  using validateYaml_without_actions [of "\<lambda>c. Inr JUndefined" "[]" JUndefined]
    validateYaml_without_actions [of "\<lambda>c. Inr (JObj [(''actions'', JStr ''none'')])"
      "''actions: none''" "JObj [(''actions'', JStr ''none'')]"]
    validateYaml_without_actions [of "\<lambda>c. Inl (JsError ''bad indentation'')" "''a: - b''" _
      "JsError ''bad indentation''"]
  by simp

subsection \<open>The validation of one record\<close>

lemma forEach_check_prop:
  "to_string actionType = Some t \<Longrightarrow>
   forEach (check_prop action actionType index) props k errs
   = (errs @ map (missing_prop_error t index)
               (filter (\<lambda>prop. prop \<noteq> ''action'' \<and> \<not> js_truthy (js_get action prop)) props), None)"
  by (induction props arbitrary: k errs) (simp_all add: check_prop_def)

lemma strict_eq_JStr: "strict_eq (JStr a) v \<longleftrightarrow> v = JStr a"
  by (cases v) auto

lemma getActionDefinition_SomeD:
  assumes "getActionDefinition v = Some d"
  shows "v = JStr (name d)" and "d \<in> set actionDefinitions"
  using assms unfolding getActionDefinition_def
  by (auto simp: find_Some_iff strict_eq_JStr)

lemma definition_name_not_empty: "d \<in> set actionDefinitions \<Longrightarrow> name d \<noteq> []"
  by (auto simp: actionDefinitions_def)

lemma js_get_not_undefined: "js_get v k \<noteq> JUndefined \<Longrightarrow> js_prop v k = Inr (js_get v k)"
  by (cases v) (auto simp: js_prop_def)

lemma validate_action_append:
  "validate_action errs action index
   = (errs @ fst (validate_action [] action index), snd (validate_action [] action index))"
proof (cases "getActionDefinition (js_get action ''action'')")
  case None
  then show ?thesis
    by (auto simp: validate_action_def js_prop_def split: option.splits)
next
  case (Some d)
  from getActionDefinition_SomeD(1) [OF this]
  have "to_string (js_get action ''action'') = Some (name d)" by simp
  then show ?thesis
    using Some by (auto simp: validate_action_def js_prop_def forEach_check_prop)
qed

lemma validate_action_no_throw:
  assumes "a \<noteq> JNull" "a \<noteq> JUndefined" "to_string (js_get a ''action'') \<noteq> None"
  shows "snd (validate_action errs a i) = None"
proof (cases "getActionDefinition (js_get a ''action'')")
  case None
  then show ?thesis
    using assms by (auto simp: validate_action_def js_prop_def split: option.splits)
next
  case (Some d)
  from getActionDefinition_SomeD(1) [OF this]
  have "to_string (js_get a ''action'') = Some (name d)" by simp
  then show ?thesis
    using Some assms by (auto simp: validate_action_def js_prop_def forEach_check_prop)
qed

text \<open>
  A record whose type tag is present and unknown gets one message, and none of the
  checks of required properties.
\<close>

lemma validate_action_unknown_type:
  assumes "a \<noteq> JNull" "a \<noteq> JUndefined" "js_truthy (js_get a ''action'')"
    and "getActionDefinition (js_get a ''action'') = None"
    and "to_string (js_get a ''action'') = Some t"
  shows "validate_action errs a i = (errs @ [unknown_type_error t i], None)"
  using assms by (simp add: validate_action_def js_prop_def)

text \<open>
  Where no element of the actions sequence is null and every type tag has a text,
  the loop over the records runs to its end: the errors are those of each record in
  order, and the document is returned.
\<close>

lemma validateYaml_records:
  assumes "load content = Inr d" and "js_get d ''actions'' = JArr acts"
    and "\<forall>a \<in> set acts. a \<noteq> JNull \<and> a \<noteq> JUndefined \<and> to_string (js_get a ''action'') \<noteq> None"
  shows "validateYaml load content
         = \<lparr>errors = concat (map (\<lambda>(i, a). fst (validate_action [] a i)) (List.enumerate 0 acts)),
            data = Some d\<rparr>"
proof -
  have "snd (forEach validate_action acts 0 []) = None"
    using assms(3) by (intro forEach_no_throw validate_action_no_throw) auto
  then obtain errs where run: "forEach validate_action acts 0 [] = (errs, None)"
    by (cases "forEach validate_action acts 0 []") auto
  have "errs = [] @ concat (map (\<lambda>(i, a). fst (validate_action [] a i)) (List.enumerate 0 acts))"
    using forEach_append [of validate_action acts 0 "[]" errs, OF validate_action_append run]
    by blast
  moreover have "js_truthy d"
    using assms(2) by (cases d) auto
  ultimately show ?thesis
    using assms(1,2) run by (simp add: validateYaml_def)
qed

text \<open>
  C5. The specification says that a record whose type tag is present and unknown gets
  exactly one error, that the validation goes on with the records after it, and that
  the document is returned. The code does so only while no element of the sequence is
  null. On the document \<^verbatim>\<open>actions: [{action: Foo}, null, {action: Bar}]\<close> (a list item
  left empty in the editor) the read of \<^verbatim>\<open>action.action\<close> on the second element throws
  inside the loop and the \<^verbatim>\<open>catch\<close> written for the deserializer takes the exception:
  the third record, whose type is unknown, gets no error, a parsing error is reported,
  and the document is null.
\<close>

theorem validateYaml_null_record:
  "validateYaml
     (\<lambda>c. Inr (JObj [(''actions'', JArr [JObj [(''action'', JStr ''Foo'')], JNull,
                                         JObj [(''action'', JStr ''Bar'')]])]))
     (''actions:'' @ [CHR 0x0A] @ ''  - action: Foo'' @ [CHR 0x0A] @ ''  -'' @ [CHR 0x0A]
        @ ''  - action: Bar'')
   = \<lparr>errors = [''Unknown action type '' @ [CHR 0x27] @ ''Foo'' @ [CHR 0x27] @ '' at index 0'',
                 ''YAML parsing error: Cannot read properties of null (reading '' @ [CHR 0x27]
                   @ ''action'' @ [CHR 0x27] @ '')''],
      data = None\<rparr>"
  by code_simp

theorem validateYaml_null_record_witness:
  "data (validateYaml
           (\<lambda>c. Inr (JObj [(''actions'', JArr [JObj [(''action'', JStr ''Foo'')], JNull,
                                               JObj [(''action'', JStr ''Bar'')]])]))
           (''actions:'' @ [CHR 0x0A] @ ''  - action: Foo'' @ [CHR 0x0A] @ ''  -'' @ [CHR 0x0A]
              @ ''  - action: Bar'')) = None
   \<and> length (errors (validateYaml
           (\<lambda>c. Inr (JObj [(''actions'', JArr [JObj [(''action'', JStr ''Foo'')], JNull,
                                               JObj [(''action'', JStr ''Bar'')]])]))
           (''actions:'' @ [CHR 0x0A] @ ''  - action: Foo'' @ [CHR 0x0A] @ ''  -'' @ [CHR 0x0A]
              @ ''  - action: Bar''))) = 2"
  using validateYaml_null_record by simp

text \<open>
  C6, as the code has it. For a record whose \<^verbatim>\<open>action\<close> is a known type, the step of
  the validation that looks at the record adds exactly one "missing mandatory property"
  message for each required property of the type, other than \<^verbatim>\<open>action\<close>, whose value
  on the record is falsy: absent, null, false, 0, NaN or the empty text. So the number
  of these messages is the number of such properties. An empty sequence and an empty
  mapping are truthy: they count as present.
\<close>

theorem validate_action_missing_props:
  assumes "getActionDefinition (js_get action ''action'') = Some d"
  shows "\<exists>msgs. validate_action errs action index = (errs @ msgs, None)
           \<and> msgs = map (missing_prop_error (name d) index) (falsy_required action d)
           \<and> length msgs = length (falsy_required action d)"
proof -
  have tag: "js_get action ''action'' = JStr (name d)" and "name d \<noteq> []"
    using getActionDefinition_SomeD [OF assms] definition_name_not_empty by auto
  then have "js_prop action ''action'' = Inr (JStr (name d))"
    using js_get_not_undefined [of action "''action''"] by simp
  then show ?thesis
    using assms tag \<open>name d \<noteq> []\<close>
    by (simp add: validate_action_def forEach_check_prop falsy_required_def)
qed

theorem validate_action_missing_props_witness:
  "validate_action []
     (JObj [(''action'', JStr ''Load''), (''name'', JStr []), (''dataframe'', JStr ''d'')]) 3
   = ([missing_prop_error ''Load'' 3 ''name'', missing_prop_error ''Load'' 3 ''destination''],
      None)"
proof -
  have a: "getActionDefinition
             (js_get (JObj [(''action'', JStr ''Load''), (''name'', JStr []),
                            (''dataframe'', JStr ''d'')]) ''action'')
           = Some (actionDefinitions ! 3)"
    by code_simp
  have b: "falsy_required
             (JObj [(''action'', JStr ''Load''), (''name'', JStr []), (''dataframe'', JStr ''d'')])
             (actionDefinitions ! 3) = [''name'', ''destination'']"
    "name (actionDefinitions ! 3) = ''Load''"
    by code_simp+
  show ?thesis using validate_action_missing_props [OF a, of "[]" 3] b by simp
qed

text \<open>
  The sentence as the specification writes it fails on a Transform whose \<^verbatim>\<open>transformations\<close> is the
  empty sequence: one required field is empty, and no message is emitted.
\<close>

theorem validate_action_empty_sequence_counterexample:
  "getActionDefinition
     (js_get (JObj [(''action'', JStr ''Transform''), (''name'', JStr ''t''),
                    (''dataframe'', JStr ''d''), (''transformations'', JArr [])]) ''action'')
   = Some (actionDefinitions ! 2)
   \<and> validate_action []
       (JObj [(''action'', JStr ''Transform''), (''name'', JStr ''t''),
              (''dataframe'', JStr ''d''), (''transformations'', JArr [])]) 0 = ([], None)
   \<and> absent_or_empty_required
       (JObj [(''action'', JStr ''Transform''), (''name'', JStr ''t''),
              (''dataframe'', JStr ''d''), (''transformations'', JArr [])])
       (actionDefinitions ! 2) = [''transformations'']"
  by code_simp

section \<open>Properties of the upload file names\<close>

lemma js_split_not_Nil: "js_split sep s \<noteq> []"
  by (induction s) (auto split: list.splits)

lemma hd_js_split: "hd (js_split sep s) = takeWhile (\<lambda>c. c \<noteq> sep) s"
  using js_split_not_Nil [of sep]
  by (induction s) (auto split: list.splits)

lemma js_trim_Nil: "js_trim [] = []"
  by (simp add: js_trim_def)

lemma invalidChars_iff:
  "invalidChars c \<longleftrightarrow>
     c \<in> {CHR ''<'', CHR ''>'', CHR '':'', CHR 0x22, CHR ''|'', CHR ''?'', CHR ''*''}
     \<or> (of_char c :: nat) < 32"
  by (auto simp: invalidChars_def)

text \<open>
  C9. A file name that is a text is rejected exactly when, after trimming, it is empty,
  or longer than 255 characters, or holds one of the characters \<^verbatim>\<open>< > : " | ? *\<close> or a
  control character (a character below \<^verbatim>\<open>0x20\<close>, the class \<^verbatim>\<open>\x00-\x1f\<close> of the
  pattern), or the part before its first dot is, in upper case, one of the reserved
  names. \<^verbatim>\<open>ensureYamlExtension\<close> returns the trimmed name when it ends in \<^verbatim>\<open>.yaml\<close> or
  \<^verbatim>\<open>.yml\<close>, and the trimmed name followed by \<^verbatim>\<open>.yaml\<close> otherwise.
\<close>

theorem validateS3Filename_rejects_iff:
  "(s3_isValid (validateS3Filename (JStr f)) \<longleftrightarrow>
     \<not> (js_trim f = [] \<or> length (js_trim f) > 255
        \<or> (\<exists>c \<in> set (js_trim f).
              c \<in> {CHR ''<'', CHR ''>'', CHR '':'', CHR 0x22, CHR ''|'', CHR ''?'', CHR ''*''}
              \<or> (of_char c :: nat) < 32)
        \<or> js_toUpperCase (takeWhile (\<lambda>c. c \<noteq> CHR ''.'') (js_trim f)) \<in> set reservedNames))
   \<and> ensureYamlExtension f =
       (if suffix ''.yaml'' (js_trim f) \<or> suffix ''.yml'' (js_trim f) then js_trim f
        else js_trim f @ ''.yaml'')"
proof (cases "f = []")
  case True
  then show ?thesis
    by (simp add: validateS3Filename_def ensureYamlExtension_def js_trim_Nil)
next
  case False
  then show ?thesis
    unfolding validateS3Filename_def ensureYamlExtension_def Let_def nameWithoutExt_def
      hd_js_split list_ex_iff invalidChars_iff
    by simp
qed

theorem validateS3Filename_rejects_iff_witness:
  "s3_isValid (validateS3Filename (JStr '' report-1.yaml ''))
   \<and> \<not> s3_isValid (validateS3Filename (JStr ''com1.backup.yaml''))
   \<and> \<not> s3_isValid (validateS3Filename (JStr ''what?.yaml''))
   \<and> ensureYamlExtension '' flow.yml '' = ''flow.yml''
   \<and> ensureYamlExtension ''flow'' = ''flow.yaml''"
proof -
  have a: "js_trim '' report-1.yaml '' = ''report-1.yaml''"
    "js_trim ''com1.backup.yaml'' = ''com1.backup.yaml''"
    "js_trim ''what?.yaml'' = ''what?.yaml''"
    "js_trim '' flow.yml '' = ''flow.yml''"
    "js_trim ''flow'' = ''flow''"
    by code_simp+
  have b: "js_toUpperCase ''report-1'' \<notin> set reservedNames"
    "js_toUpperCase ''com1'' \<in> set reservedNames"
    "suffix ''.yml'' ''flow.yml''" "\<not> suffix ''.yaml'' ''flow''" "\<not> suffix ''.yml'' ''flow''"
    by code_simp+
  have c: "\<forall>c \<in> set ''report-1.yaml''.
             \<not> (c \<in> {CHR ''<'', CHR ''>'', CHR '':'', CHR 0x22, CHR ''|'', CHR ''?'', CHR ''*''}
                \<or> (of_char c :: nat) < 32)"
    by code_simp
  show ?thesis
    using validateS3Filename_rejects_iff [of "'' report-1.yaml ''"]
      validateS3Filename_rejects_iff [of "''com1.backup.yaml''"]
      validateS3Filename_rejects_iff [of "''what?.yaml''"]
      validateS3Filename_rejects_iff [of "'' flow.yml ''"]
      validateS3Filename_rejects_iff [of "''flow''"] a b c
    by simp
qed

section \<open>Properties of the SQL checks\<close>

lemma validateSQL_format_accepts:
  "format t JUndefined = Inr x \<Longrightarrow>
   validateSQL format (JStr t) = validateSQL (\<lambda>a b. Inr []) (JStr t)"
  by (simp add: validateSQL_def)

lemma validateSQL_delete_from_customers:
  "validateSQL (\<lambda>a b. Inr []) (JStr ''DELETE FROM customers'')
   = \<lparr>isValid = True, sql_errors = [],
      warnings = [''DELETE statement without WHERE clause - this will delete all rows'']\<rparr>"
  by code_simp

text \<open>
  C8. On the text \<^verbatim>\<open>DELETE FROM customers\<close>, which the formatter of the package
  \<^verbatim>\<open>sql-formatter\<close> accepts, \<^verbatim>\<open>validateSQL\<close> reports no error and exactly one warning,
  the one about a DELETE statement without a WHERE clause, so \<^verbatim>\<open>isValid\<close> is true. The
  formatter is a library outside of the repository; that it accepts this text is the
  hypothesis.
\<close>

theorem validateSQL_delete_without_where:
  assumes "format ''DELETE FROM customers'' JUndefined = Inr formatted"
  shows "validateSQL format (JStr ''DELETE FROM customers'')
         = \<lparr>isValid = True, sql_errors = [],
            warnings = [''DELETE statement without WHERE clause - this will delete all rows'']\<rparr>"
  using validateSQL_format_accepts [of format "''DELETE FROM customers''" formatted, OF assms]
    validateSQL_delete_from_customers
  by simp

theorem validateSQL_delete_without_where_witness:
  "validateSQL (\<lambda>t opts. Inr (''DELETE'' @ [CHR 0x0A] @ ''FROM'' @ [CHR 0x0A] @ ''  customers''))
     (JStr ''DELETE FROM customers'')
   = \<lparr>isValid = True, sql_errors = [],
      warnings = [''DELETE statement without WHERE clause - this will delete all rows'']\<rparr>"
  using validateSQL_delete_without_where
          [of "\<lambda>t opts. Inr (''DELETE'' @ [CHR 0x0A] @ ''FROM'' @ [CHR 0x0A] @ ''  customers'')"
              "''DELETE'' @ [CHR 0x0A] @ ''FROM'' @ [CHR 0x0A] @ ''  customers''"]
  by simp

section \<open>Properties of the SQL classifier\<close>

lemma js_includes_sublist: "js_includes s p = sublist p s"
  by (induction s) (auto simp: sublist_Cons_right)

lemma lower_fragment: "p \<in> set potentialSQLProps \<Longrightarrow> js_toLowerCase p = p"
  by (auto simp: potentialSQLProps_def js_toLowerCase_def lower_char_def)

lemma js_includes_lower: "js_includes s p \<Longrightarrow> js_includes (js_toLowerCase s) (js_toLowerCase p)"
  unfolding js_includes_sublist js_toLowerCase_def sublist_def
  by (metis map_append)

lemma foldl_identify_entry:
  "foldl identify_entry acc es = acc @ concat (map (identify_entry []) es)"
proof (induction es arbitrary: acc)
  case Nil then show ?case by simp
next
  case (Cons e es)
  have "identify_entry acc e = acc @ identify_entry [] e"
    by (cases e) (simp add: identify_entry_def Let_def)
  then show ?case using Cons.IH [of "identify_entry acc e"] Cons.IH [of "identify_entry [] e"]
    by simp
qed

text \<open>
  C7, as the code has it. For every record and every field of it whose value is a text
  of more than 10 characters and whose name contains one of the fixed fragments,
  \<^verbatim>\<open>identifySQLProperties\<close> lists the name of the field, whatever the text is. The code
  looks at a text only when it is longer than 10 characters.
\<close>

theorem identifySQLProperties_by_name:
  assumes "(key, JStr t) \<in> set ps" and "length t > 10"
    and "p \<in> set potentialSQLProps" and "js_includes key p"
  shows "key \<in> set (identifySQLProperties (JObj ps))"
proof -
  have "js_includes (js_toLowerCase key) p"
    using js_includes_lower [OF assms(4)] lower_fragment [OF assms(3)] by simp
  then have "list_ex (\<lambda>prop. js_includes (js_toLowerCase key) prop) potentialSQLProps"
    using assms(3) by (auto simp: list_ex_iff)
  then have "identify_entry [] (key, JStr t) = [key]"
    using assms(2) by (simp add: identify_entry_def)
  then have "key \<in> set (concat (map (identify_entry []) ps))"
    using assms(1) by force
  then show ?thesis
    by (simp add: identifySQLProperties_def foldl_identify_entry)
qed

theorem identifySQLProperties_by_name_witness:
  "''script'' \<in> set (identifySQLProperties
                      (JObj [(''action'', JStr ''Execute''), (''script'', JStr ''nightly_job.py'')]))"
proof -
  have "''script'' \<in> set potentialSQLProps" "js_includes ''script'' ''script''"
    by code_simp+
  then show ?thesis
    using identifySQLProperties_by_name
            [of "''script''" "''nightly_job.py''"
                "[(''action'', JStr ''Execute''), (''script'', JStr ''nightly_job.py'')]" "''script''"]
    by simp
qed

text \<open>
  The sentence as the specification writes it fails on a short text: the field \<^verbatim>\<open>script\<close> with the
  value \<^verbatim>\<open>run.py\<close> is not listed.
\<close>

theorem identifySQLProperties_short_text_counterexample:
  "''script'' \<in> set potentialSQLProps \<and> js_includes ''script'' ''script''
   \<and> ''script'' \<notin> set (identifySQLProperties (JObj [(''script'', JStr ''run.py'')]))"
  by code_simp

section \<open>Properties of the formatting of an action\<close>

lemma js_get_js_set_other: "k \<noteq> prop \<Longrightarrow> js_get (js_set v prop x) k = js_get v k"
  by (cases v) (simp_all add: update_conv')

lemma js_set_keys:
  assumes "js_get (JObj ps) prop \<noteq> JUndefined"
  shows "\<exists>ps'. js_set (JObj ps) prop x = JObj ps' \<and> map fst ps' = map fst ps"
proof -
  from assms have "map_of ps prop \<noteq> None"
    by (auto split: option.splits)
  then have "prop \<in> fst ` set ps"
    by (simp add: map_of_eq_None_iff)
  then show ?thesis by (simp add: update_keys)
qed

lemma format_prop_frame:
  assumes "r < length st" and "st ! r = JObj ps"
  shows "length (format_prop format opts r st q) = length st"
    and "\<forall>i. i \<noteq> r \<longrightarrow> format_prop format opts r st q ! i = st ! i"
    and "\<forall>k. k \<noteq> q \<longrightarrow> js_get (format_prop format opts r st q ! r) k = js_get (st ! r) k"
    and "\<exists>ps'. format_prop format opts r st q ! r = JObj ps' \<and> map fst ps' = map fst ps"
proof -
  show "length (format_prop format opts r st q) = length st"
    by (simp add: format_prop_def Let_def)
  show "\<forall>i. i \<noteq> r \<longrightarrow> format_prop format opts r st q ! i = st ! i"
    by (simp add: format_prop_def Let_def)
  show "\<forall>k. k \<noteq> q \<longrightarrow> js_get (format_prop format opts r st q ! r) k = js_get (st ! r) k"
    using assms(1) by (simp add: format_prop_def Let_def js_get_js_set_other)
  have u: "js_get (JObj ps) q \<noteq> JUndefined"
    if "is_string (js_get (JObj ps) q) \<or> is_array (js_get (JObj ps) q)"
    using that by auto
  show "\<exists>ps'. format_prop format opts r st q ! r = JObj ps' \<and> map fst ps' = map fst ps"
    using assms js_set_keys [OF u]
    by (auto simp: format_prop_def Let_def simp del: js_set.simps js_get.simps)
qed

lemma foldl_format_prop:
  assumes "r < length st" and "st ! r = JObj ps"
  shows "length (foldl (format_prop format opts r) st props) = length st
    \<and> (\<forall>i. i \<noteq> r \<longrightarrow> foldl (format_prop format opts r) st props ! i = st ! i)
    \<and> (\<forall>k. k \<notin> set props \<longrightarrow> js_get (foldl (format_prop format opts r) st props ! r) k = js_get (st ! r) k)
    \<and> (\<exists>ps'. foldl (format_prop format opts r) st props ! r = JObj ps' \<and> map fst ps' = map fst ps)"
  using assms
proof (induction props arbitrary: st ps)
  case Nil
  then show ?case by simp
next
  case (Cons p props)
  let ?st1 = "format_prop format opts r st p"
  from format_prop_frame [OF Cons.prems, where format = format and opts = opts and q = p]
  have len: "length ?st1 = length st"
    and other: "\<And>i. i \<noteq> r \<Longrightarrow> ?st1 ! i = st ! i"
    and keep: "\<And>k. k \<noteq> p \<Longrightarrow> js_get (?st1 ! r) k = js_get (st ! r) k"
    and obj: "\<exists>ps'. ?st1 ! r = JObj ps' \<and> map fst ps' = map fst ps"
    by blast+
  from obj obtain ps1 where ps1: "?st1 ! r = JObj ps1" "map fst ps1 = map fst ps" by blast
  have r1: "r < length ?st1" using len Cons.prems(1) by simp
  from Cons.IH [OF r1 ps1(1)] len other keep ps1(2)
  show ?case by simp
qed

text \<open>
  C10. For every record in the store, every formatter and every value of the formatting
  options, \<^verbatim>\<open>autoFormatSQLInAction\<close> returns a reference to a new object (a cell the
  store did not have), every cell the store had is as it was, the argument's among
  them, the new object has the fields of the record, and every field that
  \<^verbatim>\<open>identifySQLProperties\<close> does not list for the record has the value it has in the
  record.
\<close>

theorem autoFormatSQLInAction_frame:
  assumes "action < length st" and "st ! action = JObj ps"
  shows "case autoFormatSQLInAction format st action formatOptions of
           (st', formattedAction) \<Rightarrow>
             formattedAction = length st \<and> length st' = Suc (length st)
             \<and> (\<forall>i < length st. st' ! i = st ! i)
             \<and> (\<exists>ps'. st' ! formattedAction = JObj ps' \<and> map fst ps' = map fst ps)
             \<and> (\<forall>k. k \<notin> set (identifySQLProperties (JObj ps))
                    \<longrightarrow> js_get (st' ! formattedAction) k = js_get (JObj ps) k)"
proof -
  let ?st1 = "st @ [JObj ps]"
  have r: "length st < length ?st1" and c: "?st1 ! length st = JObj ps" by simp_all
  from foldl_format_prop [OF r c, of format formatOptions "identifySQLProperties (JObj ps)"]
  show ?thesis
    using assms
    by (simp add: autoFormatSQLInAction_def Let_def nth_append del: js_get.simps)
qed

theorem autoFormatSQLInAction_frame_witness:
  "autoFormatSQLInAction (\<lambda>t opts. Inr (js_toUpperCase t))
     [JObj [(''action'', JStr ''Execute''), (''name'', JStr ''count rows''),
            (''script'', JStr ''select count(*) from t'')]] 0 JUndefined
   = ([JObj [(''action'', JStr ''Execute''), (''name'', JStr ''count rows''),
             (''script'', JStr ''select count(*) from t'')],
       JObj [(''action'', JStr ''Execute''), (''name'', JStr ''count rows''),
             (''script'', JStr ''SELECT COUNT(*) FROM T'')]], 1)
   \<and> ''name'' \<notin> set (identifySQLProperties
                        (JObj [(''action'', JStr ''Execute''), (''name'', JStr ''count rows''),
                               (''script'', JStr ''select count(*) from t'')]))"
proof -
  have ev: "autoFormatSQLInAction (\<lambda>t opts. Inr (js_toUpperCase t))
     [JObj [(''action'', JStr ''Execute''), (''name'', JStr ''count rows''),
            (''script'', JStr ''select count(*) from t'')]] 0 JUndefined
   = ([JObj [(''action'', JStr ''Execute''), (''name'', JStr ''count rows''),
             (''script'', JStr ''select count(*) from t'')],
       JObj [(''action'', JStr ''Execute''), (''name'', JStr ''count rows''),
             (''script'', JStr ''SELECT COUNT(*) FROM T'')]], 1)"
    by code_simp
  have n: "''name'' \<notin> set (identifySQLProperties
                             (JObj [(''action'', JStr ''Execute''), (''name'', JStr ''count rows''),
                                    (''script'', JStr ''select count(*) from t'')]))"
    by code_simp
  show ?thesis
    using autoFormatSQLInAction_frame
            [of 0 "[JObj [(''action'', JStr ''Execute''), (''name'', JStr ''count rows''),
                          (''script'', JStr ''select count(*) from t'')]]"
                "[(''action'', JStr ''Execute''), (''name'', JStr ''count rows''),
                  (''script'', JStr ''select count(*) from t'')]"
                "\<lambda>t opts. Inr (js_toUpperCase t)" JUndefined]
      ev n
    by simp
qed

end
